theory Spec2Isabelle
  imports Complex_Main
begin

section \<open>Strings and regular expressions of the platform\<close>

text \<open>
  The two programs (\<^verbatim>\<open>src/extractor.js\<close> and \<^verbatim>\<open>src/unnamed/part_000\<close>) are
  JavaScript. A JavaScript string is modelled as a \<^typ>\<open>string\<close>; the model covers page
  texts made of ASCII characters, where \<^verbatim>\<open>toUpperCase\<close>, \<^verbatim>\<open>\s\<close>,
  \<^verbatim>\<open>trim\<close> and the \<^verbatim>\<open>i\<close> flag behave as written below. Characters
  beyond ASCII are outside the model: the no-break space U+00A0, which JavaScript counts
  as white space, is not white space here.
\<close>

definition up_char :: "char \<Rightarrow> char" where
  "up_char c = (let n = (of_char c :: nat) in if 97 \<le> n \<and> n \<le> 122 then char_of (n - 32) else c)"

definition low_char :: "char \<Rightarrow> char" where
  "low_char c = (let n = (of_char c :: nat) in if 65 \<le> n \<and> n \<le> 90 then char_of (n + 32) else c)"

definition toUpperCase :: "string \<Rightarrow> string" where
  "toUpperCase s = map up_char s"

definition is_space :: "char \<Rightarrow> bool" where
  "is_space c = (c \<in> set [CHR 0x09, CHR 0x0A, CHR 0x0B, CHR 0x0C, CHR 0x0D, CHR '' ''])"

definition is_digit :: "char \<Rightarrow> bool" where
  "is_digit c = (c \<in> set ''0123456789'')"

definition is_upper :: "char \<Rightarrow> bool" where
  "is_upper c = (c \<in> set ''ABCDEFGHIJKLMNOPQRSTUVWXYZ'')"

definition is_lower :: "char \<Rightarrow> bool" where
  "is_lower c = (c \<in> set ''abcdefghijklmnopqrstuvwxyz'')"

definition is_line_end :: "char \<Rightarrow> bool" where
  "is_line_end c = (c \<in> set [CHR 0x0A, CHR 0x0D])"

definition trim :: "string \<Rightarrow> string" where
  "trim s = rev (dropWhile is_space (rev (dropWhile is_space s)))"

fun startsWith :: "string \<Rightarrow> string \<Rightarrow> bool" where
  "startsWith s [] = True"
| "startsWith [] (p # ps) = False"
| "startsWith (c # cs) (p # ps) = (c = p \<and> startsWith cs ps)"

text \<open>\<^verbatim>\<open>s.includes(sub)\<close>: some suffix of \<open>s\<close> starts with \<open>sub\<close>.\<close>

fun includes_str :: "string \<Rightarrow> string \<Rightarrow> bool" where
  "includes_str [] sub = (sub = [])"
| "includes_str (c # cs) sub = (startsWith (c # cs) sub \<or> includes_str cs sub)"

text \<open>\<^verbatim>\<open>parts.join(sep)\<close>.\<close>

fun join :: "string \<Rightarrow> string list \<Rightarrow> string" where
  "join sep [] = []"
| "join sep [x] = x"
| "join sep (x # y # ys) = x @ sep @ join sep (y # ys)"

text \<open>\<^verbatim>\<open>s.split(c)\<close> for a one-character separator: never empty, one more
  segment than there are separators.\<close>

fun split_on :: "char \<Rightarrow> string \<Rightarrow> string list" where
  "split_on d [] = [[]]"
| "split_on d (c # cs) =
     (if c = d then [] # split_on d cs
      else (case split_on d cs of
              [] \<Rightarrow> [[c]]
            | seg # segs \<Rightarrow> (c # seg) # segs))"

subsection \<open>A backtracking matcher\<close>

text \<open>
  The regular expressions of the source are written as terms of \<open>re\<close> and run by a
  backtracking matcher in continuation style, in the order ECMAScript prescribes: a
  greedy quantifier tries one more iteration before it tries the continuation, a lazy
  one the other way round, an alternative tries its left branch first, and an iteration
  that consumes nothing is refused. \<open>Cls ng p\<close> is a character class with members \<open>p\<close>,
  negated when \<open>ng\<close>; \<open>Star g r\<close> is \<^verbatim>\<open>r*\<close> when \<open>g\<close> and \<^verbatim>\<open>r*?\<close> otherwise;
  \<open>Grp i r\<close> is the \<open>i\<close>-th capturing group. The flag \<open>ci\<close> is the \<^verbatim>\<open>i\<close> flag.
  A matcher state is the input still to read and the captures made so far.
\<close>

type_synonym caps = "(nat \<times> string) list"
type_synonym mstate = "string \<times> caps"
type_synonym cont = "mstate \<Rightarrow> mstate option"

datatype re =
    Lit char
  | Cls bool "char \<Rightarrow> bool"
  | Eps
  | Seq re re
  | Alt re re
  | Star bool re
  | Grp nat re

text \<open>The iteration count of a star is bounded by the length of the input, since every
  accepted iteration consumes a character: the bound \<open>n\<close> is never the reason to stop.\<close>

fun star :: "bool \<Rightarrow> (cont \<Rightarrow> cont) \<Rightarrow> nat \<Rightarrow> cont \<Rightarrow> cont" where
  "star g f 0 k st = k st"
| "star g f (Suc n) k st =
     (if g
      then (case f (\<lambda>st'. if length (fst st') < length (fst st) then star g f n k st' else None) st of
              Some r \<Rightarrow> Some r
            | None \<Rightarrow> k st)
      else (case k st of
              Some r \<Rightarrow> Some r
            | None \<Rightarrow> f (\<lambda>st'. if length (fst st') < length (fst st) then star g f n k st' else None) st))"

primrec rmatch :: "re \<Rightarrow> bool \<Rightarrow> cont \<Rightarrow> cont" where
  "rmatch (Lit c) ci k st =
     (case fst st of
        [] \<Rightarrow> None
      | x # xs \<Rightarrow> if (if ci then up_char x = up_char c else x = c) then k (xs, snd st) else None)"
| "rmatch (Cls ng p) ci k st =
     (case fst st of
        [] \<Rightarrow> None
      | x # xs \<Rightarrow>
          if (if ci then p x \<or> p (up_char x) \<or> p (low_char x) else p x) \<noteq> ng
          then k (xs, snd st) else None)"
| "rmatch Eps ci k st = k st"
| "rmatch (Seq a b) ci k st = rmatch a ci (rmatch b ci k) st"
| "rmatch (Alt a b) ci k st = (case rmatch a ci k st of Some r \<Rightarrow> Some r | None \<Rightarrow> rmatch b ci k st)"
| "rmatch (Star g a) ci k st = star g (rmatch a ci) (length (fst st)) k st"
| "rmatch (Grp i a) ci k st =
     rmatch a ci (\<lambda>st'. k (fst st', (i, take (length (fst st) - length (fst st')) (fst st)) # snd st')) st"

text \<open>The pieces of regular-expression syntax the source uses.\<close>

definition Str :: "string \<Rightarrow> re" where
  "Str s = foldr (\<lambda>c r. Seq (Lit c) r) s Eps"

definition Opt :: "re \<Rightarrow> re" where
  "Opt r = Alt r Eps"

definition Plus :: "re \<Rightarrow> re" where
  "Plus r = Seq r (Star True r)"

fun Rep :: "nat \<Rightarrow> re \<Rightarrow> re" where
  "Rep 0 r = Eps"
| "Rep (Suc n) r = Seq r (Rep n r)"

fun Upto :: "nat \<Rightarrow> re \<Rightarrow> re" where
  "Upto 0 r = Eps"
| "Upto (Suc n) r = Alt (Seq r (Upto n r)) Eps"

definition AnyChar :: re where
  "AnyChar = Cls False (\<lambda>c. True)"

definition Dot :: re where
  "Dot = Cls True is_line_end"

definition Space :: re where
  "Space = Cls False is_space"

definition Digit :: re where
  "Digit = Cls False is_digit"

definition OneOf :: "string \<Rightarrow> re" where
  "OneOf cs = Cls False (\<lambda>c. c \<in> set cs)"

definition NoneOf :: "string \<Rightarrow> re" where
  "NoneOf cs = Cls True (\<lambda>c. c \<in> set cs)"

text \<open>
  \<^verbatim>\<open>s.match(re)\<close> without the \<^verbatim>\<open>g\<close> flag: the leftmost position where the
  expression matches. The result is the input after the match and the captures;
  \<open>group\<close> reads a capture (\<open>None\<close> is JavaScript's \<^verbatim>\<open>undefined\<close>).
\<close>

fun re_search :: "re \<Rightarrow> bool \<Rightarrow> string \<Rightarrow> mstate option" where
  "re_search r ci [] = rmatch r ci Some ([], [])"
| "re_search r ci (c # cs) =
     (case rmatch r ci Some (c # cs, []) of
        Some st \<Rightarrow> Some st
      | None \<Rightarrow> re_search r ci cs)"

definition group :: "mstate option \<Rightarrow> nat \<Rightarrow> string option" where
  "group mt i = (case mt of None \<Rightarrow> None | Some st \<Rightarrow> map_of (snd st) i)"

text \<open>
  A match never ends before it starts, and a match of an expression that must read a
  character (\<open>consuming\<close>) ends after it starts.
\<close>

fun consuming :: "re \<Rightarrow> bool" where
  "consuming (Lit c) = True"
| "consuming (Cls ng p) = True"
| "consuming Eps = False"
| "consuming (Seq a b) = (consuming a \<or> consuming b)"
| "consuming (Alt a b) = (consuming a \<and> consuming b)"
| "consuming (Star g a) = False"
| "consuming (Grp i a) = consuming a"

lemma star_shrinks:
  assumes f: "\<And>k st res. f k st = Some res \<Longrightarrow>
                \<exists>st'. k st' = Some res \<and> length (fst st') \<le> length (fst st)"
  shows "star g f n k st = Some res \<Longrightarrow>
           \<exists>st'. k st' = Some res \<and> length (fst st') \<le> length (fst st)"
proof (induction n arbitrary: st)
  case 0
  then show ?case by (intro exI [of _ st]) simp
next
  case (Suc n)
  let ?k = "\<lambda>st'. if length (fst st') < length (fst st) then star g f n k st' else None"
  have "f ?k st = Some res \<or> k st = Some res"
    using Suc.prems by (simp split: if_splits option.splits)
  then show ?case
  proof
    assume "f ?k st = Some res"
    then obtain st1 where 1: "?k st1 = Some res" and 2: "length (fst st1) \<le> length (fst st)"
      using f by blast
    from 1 have "star g f n k st1 = Some res"
      by (cases "length (fst st1) < length (fst st)") simp_all
    then obtain st' where "k st' = Some res" and "length (fst st') \<le> length (fst st1)"
      using Suc.IH by blast
    with 2 show ?thesis
      by (meson le_trans)
  next
    assume "k st = Some res"
    then show ?thesis by (intro exI [of _ st]) simp
  qed
qed


lemma rmatch_shrinks:
  "rmatch r ci k st = Some res \<Longrightarrow>
     \<exists>st'. k st' = Some res \<and> length (fst st') \<le> length (fst st)"
proof (induction r arbitrary: k st res)
  case (Lit c)
  then obtain x xs where "fst st = x # xs" and "k (xs, snd st) = Some res"
    by (cases "fst st") (simp_all split: if_splits)
  then show ?case by (intro exI [of _ "(xs, snd st)"]) simp
next
  case (Cls ng p)
  then obtain x xs where "fst st = x # xs" and "k (xs, snd st) = Some res"
    by (cases "fst st") (simp_all split: if_splits)
  then show ?case by (intro exI [of _ "(xs, snd st)"]) simp
next
  case Eps
  then show ?case by (intro exI [of _ st]) simp
next
  case (Seq a b)
  from Seq.prems have "rmatch a ci (rmatch b ci k) st = Some res" by simp
  then obtain st1 where 1: "rmatch b ci k st1 = Some res"
    and 2: "length (fst st1) \<le> length (fst st)"
    using Seq.IH(1) by blast
  from 1 obtain st' where "k st' = Some res" and "length (fst st') \<le> length (fst st1)"
    using Seq.IH(2) by blast
  with 2 show ?case by (meson le_trans)
next
  case (Alt a b)
  from Alt.prems have "rmatch a ci k st = Some res \<or> rmatch b ci k st = Some res"
    by (simp split: option.splits)
  then show ?case using Alt.IH by blast
next
  case (Star g a)
  from Star.prems have "star g (rmatch a ci) (length (fst st)) k st = Some res" by simp
  then show ?case
    by (rule star_shrinks [rotated]) (rule Star.IH)
next
  case (Grp i a)
  let ?k = "\<lambda>st'. k (fst st', (i, take (length (fst st) - length (fst st')) (fst st)) # snd st')"
  from Grp.prems have "rmatch a ci ?k st = Some res" by simp
  then obtain st1 where 1: "?k st1 = Some res" and 2: "length (fst st1) \<le> length (fst st)"
    using Grp.IH by blast
  show ?case
    by (intro exI [of _ "(fst st1, (i, take (length (fst st) - length (fst st1)) (fst st)) # snd st1)"])
       (use 1 2 in simp)
qed


lemma rmatch_consumes:
  "consuming r \<Longrightarrow> rmatch r ci k st = Some res \<Longrightarrow>
     \<exists>st'. k st' = Some res \<and> length (fst st') < length (fst st)"
proof (induction r arbitrary: k st res)
  case (Lit c)
  then obtain x xs where "fst st = x # xs" and "k (xs, snd st) = Some res"
    by (cases "fst st") (simp_all split: if_splits)
  then show ?case by (intro exI [of _ "(xs, snd st)"]) simp
next
  case (Cls ng p)
  then obtain x xs where "fst st = x # xs" and "k (xs, snd st) = Some res"
    by (cases "fst st") (simp_all split: if_splits)
  then show ?case by (intro exI [of _ "(xs, snd st)"]) simp
next
  case Eps
  then show ?case by simp
next
  case (Seq a b)
  from Seq.prems(2) have m: "rmatch a ci (rmatch b ci k) st = Some res" by simp
  show ?case
  proof (cases "consuming a")
    case True
    then obtain st1 where 1: "rmatch b ci k st1 = Some res"
      and 2: "length (fst st1) < length (fst st)"
      using Seq.IH(1) m by blast
    from 1 obtain st' where "k st' = Some res" and "length (fst st') \<le> length (fst st1)"
      using rmatch_shrinks by blast
    with 2 show ?thesis by (meson le_less_trans)
  next
    case False
    then have cb: "consuming b" using Seq.prems(1) by simp
    from m obtain st1 where 1: "rmatch b ci k st1 = Some res"
      and 2: "length (fst st1) \<le> length (fst st)"
      using rmatch_shrinks by blast
    from cb 1 obtain st' where "k st' = Some res" and "length (fst st') < length (fst st1)"
      using Seq.IH(2) by blast
    with 2 show ?thesis by (meson less_le_trans)
  qed
next
  case (Alt a b)
  from Alt.prems(2) have "rmatch a ci k st = Some res \<or> rmatch b ci k st = Some res"
    by (simp split: option.splits)
  moreover have "consuming a" "consuming b" using Alt.prems(1) by simp_all
  ultimately show ?case using Alt.IH by blast
next
  case (Star g a)
  then show ?case by simp
next
  case (Grp i a)
  let ?k = "\<lambda>st'. k (fst st', (i, take (length (fst st) - length (fst st')) (fst st)) # snd st')"
  from Grp.prems have "consuming a" and "rmatch a ci ?k st = Some res" by simp_all
  then obtain st1 where 1: "?k st1 = Some res" and 2: "length (fst st1) < length (fst st)"
    using Grp.IH by blast
  show ?case
    by (intro exI [of _ "(fst st1, (i, take (length (fst st) - length (fst st1)) (fst st)) # snd st1)"])
       (use 1 2 in simp)
qed

lemma re_search_consumes:
  "consuming r \<Longrightarrow> re_search r ci s = Some st \<Longrightarrow> length (fst st) < length s"
proof (induction s)
  case Nil
  then have "rmatch r ci Some ([], []) = Some st" by simp
  then obtain st' where "Some st' = Some st" and "length (fst st') < length (fst ([]::string, []::caps))"
    using rmatch_consumes [OF Nil.prems(1)] by blast
  then show ?case by simp
next
  case (Cons c cs)
  show ?case
  proof (cases "rmatch r ci Some (c # cs, [])")
    case None
    then have "re_search r ci cs = Some st" using Cons.prems(2) by simp
    then have "length (fst st) < length cs" using Cons.IH Cons.prems(1) by blast
    then show ?thesis by simp
  next
    case (Some st1)
    then have "st1 = st" using Cons.prems(2) by simp
    moreover obtain st' where "Some st' = Some st1"
      and "length (fst st') < length (fst (c # cs, []::caps))"
      using rmatch_consumes [OF Cons.prems(1) Some] by blast
    ultimately show ?thesis by simp
  qed
qed

lemma consuming_Str: "s \<noteq> [] \<Longrightarrow> consuming (Str s)"
  by (cases s) (simp_all add: Str_def)

text \<open>
  \<^verbatim>\<open>s.replace(re, rep)\<close> with the \<^verbatim>\<open>g\<close> flag: every match, found from left
  to right, is replaced; after an empty match one character is copied.
\<close>

function re_replace :: "re \<Rightarrow> bool \<Rightarrow> string \<Rightarrow> string \<Rightarrow> string" where
  "re_replace r ci rep s =
     (case rmatch r ci Some (s, []) of
        Some st \<Rightarrow>
          if length (fst st) < length s then rep @ re_replace r ci rep (fst st)
          else rep @ (case s of [] \<Rightarrow> [] | c # cs \<Rightarrow> c # re_replace r ci rep cs)
      | None \<Rightarrow> (case s of [] \<Rightarrow> [] | c # cs \<Rightarrow> c # re_replace r ci rep cs))"
  by pat_completeness auto
termination
  by (relation "measure (\<lambda>(r, ci, rep, s). length s)") auto

text \<open>A literal replaced everywhere, as \<^verbatim>\<open>s.replace(/,/g, '')\<close> does.\<close>

definition replace_char :: "char \<Rightarrow> string \<Rightarrow> string \<Rightarrow> string" where
  "replace_char d rep s = concat (map (\<lambda>c. if c = d then rep else [c]) s)"

section \<open>Text Normalizer and Field Extractor\<close>

text \<open>\<^verbatim>\<open>htmlToText\<close>, the same text in both files.\<close>

definition htmlToText :: "string \<Rightarrow> string" where
  "htmlToText s =
     (if s = [] then []
      else trim
        (re_replace (Plus Space) False '' ''
        (re_replace (Str ''&gt;'') False ''>''
        (re_replace (Str ''&lt;'') False ''<''
        (re_replace (Str ''&amp;'') False ''&''
        (re_replace (Str ''&nbsp;'') False '' ''
        (re_replace (Seq (Lit CHR ''<'') (Seq (Star True (NoneOf ''>'')) (Lit CHR ''>''))) False '' ''
        (re_replace (Seq (Str ''<br'') (Seq (Star True Space) (Seq (Opt (Lit CHR ''/'')) (Lit CHR ''>''))))
           True '', '' s))))))))"

text \<open>
  \<^verbatim>\<open>extractDataByHeader\<close>, the same text in both files. The label is spliced into
  the pattern as it is; the labels the programs pass hold no character with a meaning
  in a pattern, so it stands for itself.
\<close>

definition headerRegex :: "string \<Rightarrow> re" where
  "headerRegex headerText =
     Seq (Str (''>'' @ headerText @ ''</a></th>''))
    (Seq (Star True Space)
    (Seq (Str ''<td'')
    (Seq (Star True (NoneOf ''>''))
    (Seq (Lit CHR ''>'')
    (Seq (Grp 1 (Star False AnyChar))
         (Str ''</td>''))))))"

definition extractDataByHeader :: "string \<Rightarrow> string \<Rightarrow> string" where
  "extractDataByHeader html headerText =
     (case group (re_search (headerRegex headerText) True html) 1 of
        Some g \<Rightarrow> if g \<noteq> [] then htmlToText g else []
      | None \<Rightarrow> [])"


section \<open>Numbers\<close>

text \<open>
  \<^verbatim>\<open>Number(text)\<close> on a string, after ECMAScript's StringToNumber: surrounding white
  space is dropped, the empty string is \<open>0\<close>, a decimal literal may carry a sign, a
  fraction and an exponent, \<^verbatim>\<open>Infinity\<close> may carry a sign, a literal with prefix
  \<^verbatim>\<open>0x\<close>, \<^verbatim>\<open>0o\<close> or \<^verbatim>\<open>0b\<close> carries none, and everything else is
  \<^verbatim>\<open>NaN\<close>. \<open>Num v\<close> holds the mathematical value \<open>v\<close> of the literal. The program
  only asks whether the number is below one; the double nearest to \<open>v\<close> is below
  one exactly when \<open>v < 1 - 2\<^sup>-\<^sup>5\<^sup>4\<close> (at the midpoint the tie goes to \<open>1\<close>).
\<close>

datatype jsnum = NaN | PosInf | NegInf | Num rat

definition isNaN :: "jsnum \<Rightarrow> bool" where
  "isNaN x = (x = NaN)"

fun below_one :: "jsnum \<Rightarrow> bool" where
  "below_one NaN = False"
| "below_one PosInf = False"
| "below_one NegInf = True"
| "below_one (Num v) = (v < 1 - 1 / 2 ^ 54)"

fun negate :: "jsnum \<Rightarrow> jsnum" where
  "negate NaN = NaN"
| "negate PosInf = NegInf"
| "negate NegInf = PosInf"
| "negate (Num v) = Num (- v)"

definition digit_of :: "char \<Rightarrow> nat" where
  "digit_of c = length (takeWhile (\<lambda>d. d \<noteq> low_char c) ''0123456789abcdef'')"

definition str_nat :: "nat \<Rightarrow> string \<Rightarrow> nat" where
  "str_nat b ds = foldl (\<lambda>a c. a * b + digit_of c) 0 ds"

definition radix_literal :: "nat \<Rightarrow> string \<Rightarrow> jsnum" where
  "radix_literal b ds =
     (if ds \<noteq> [] \<and> list_all (\<lambda>c. digit_of c < b) ds then Num (of_nat (str_nat b ds)) else NaN)"

definition scale10 :: "rat \<Rightarrow> int \<Rightarrow> rat" where
  "scale10 v n = (if 0 \<le> n then v * 10 ^ nat n else v / 10 ^ nat (- n))"

text \<open>The exponent part of a decimal literal: absent, or \<^verbatim>\<open>e\<close> with an optional
  sign and at least one digit.\<close>

definition exponent_part :: "string \<Rightarrow> int option" where
  "exponent_part s =
     (case s of
        [] \<Rightarrow> Some 0
      | c # t \<Rightarrow>
          if c = CHR ''e'' \<or> c = CHR ''E'' then
            (let neg = (case t of [] \<Rightarrow> False | d # u \<Rightarrow> d = CHR ''-'');
                 ds = (case t of [] \<Rightarrow> [] | d # u \<Rightarrow> if d = CHR ''+'' \<or> d = CHR ''-'' then u else t)
             in if ds \<noteq> [] \<and> list_all is_digit ds
                then Some (if neg then - int (str_nat 10 ds) else int (str_nat 10 ds))
                else None)
          else None)"

definition unsigned_decimal :: "string \<Rightarrow> jsnum" where
  "unsigned_decimal s =
     (if s = ''Infinity'' then PosInf
      else
        let ip = takeWhile is_digit s;
            r1 = dropWhile is_digit s;
            fp = (case r1 of [] \<Rightarrow> [] | c # t \<Rightarrow> if c = CHR ''.'' then takeWhile is_digit t else []);
            r2 = (case r1 of [] \<Rightarrow> [] | c # t \<Rightarrow> if c = CHR ''.'' then dropWhile is_digit t else r1)
        in if ip = [] \<and> fp = [] then NaN
           else (case exponent_part r2 of
                   None \<Rightarrow> NaN
                 | Some n \<Rightarrow> Num (scale10 (of_nat (str_nat 10 (ip @ fp))) (n - int (length fp)))))"

definition Number_js :: "string \<Rightarrow> jsnum" where
  "Number_js s =
     (let t = trim s in
      if t = [] then Num 0
      else if startsWith t ''0x'' \<or> startsWith t ''0X'' then radix_literal 16 (drop 2 t)
      else if startsWith t ''0o'' \<or> startsWith t ''0O'' then radix_literal 8 (drop 2 t)
      else if startsWith t ''0b'' \<or> startsWith t ''0B'' then radix_literal 2 (drop 2 t)
      else (case t of
              [] \<Rightarrow> NaN
            | c # u \<Rightarrow>
                if c = CHR ''+'' then unsigned_decimal u
                else if c = CHR ''-'' then negate (unsigned_decimal u)
                else unsigned_decimal t))"

section \<open>Configuration and the world outside\<close>

definition MIN_AGE_DAYS :: int where
  "MIN_AGE_DAYS = 180"

definition MAX_RETRIES :: nat where
  "MAX_RETRIES = 3"

definition BACKOFF_BASE_MS :: nat where
  "BACKOFF_BASE_MS = 2000"

text \<open>
  What a run does to the world is a trace of events: a request sent, a pause taken.
  What the world answers is read from \<open>env\<close>: \<open>network\<close> is the outcome of one
  \<^verbatim>\<open>fetchWithTimeout\<close> and of reading the body (an error for a network failure, a
  timeout or a status outside 2xx), given everything done before;
  \<open>parseDate\<close> is \<^verbatim>\<open>new Date(text)\<close> as milliseconds since the epoch, \<open>None\<close> for an
  invalid date; \<open>today\<close> is \<^verbatim>\<open>new Date()\<close>; \<open>resolveURL rel base\<close> is
  \<^verbatim>\<open>new URL(rel, base).href\<close>, \<open>None\<close> when the constructor throws; \<open>MODE\<close> is
  the environment variable that \<^verbatim>\<open>part_000\<close> reads.
\<close>

datatype error =
    HttpStatus nat
  | NetworkFailure
  | TimedOut
  | InvalidURL string
  | AttemptsFailed string nat

datatype event = Request string | Sleep nat

type_synonym trace = "event list"

record env =
  network :: "trace \<Rightarrow> string \<Rightarrow> error + string"
  parseDate :: "string \<Rightarrow> int option"
  today :: int
  resolveURL :: "string \<Rightarrow> string \<Rightarrow> string option"
  MODE :: string

section \<open>Resilient Fetcher\<close>

definition fetchWithTimeout :: "env \<Rightarrow> string \<Rightarrow> trace \<Rightarrow> (error + string) \<times> trace" where
  "fetchWithTimeout e url tr = (network e tr url, tr @ [Request url])"

text \<open>
  \<^verbatim>\<open>fetchRetry\<close>, the same text in both files: the \<^verbatim>\<open>for\<close> loop with its counter
  \<open>i\<close> and the variable \<open>lastErr\<close>.
\<close>

function fetchRetry_loop ::
  "env \<Rightarrow> string \<Rightarrow> nat \<Rightarrow> string \<Rightarrow> nat \<Rightarrow> error option \<Rightarrow> trace \<Rightarrow> (error + string) \<times> trace" where
  "fetchRetry_loop e url tries label i lastErr tr =
     (if i < tries then
        (case fetchWithTimeout e url tr of
           (Inr body, tr') \<Rightarrow> (Inr body, tr')
         | (Inl err, tr') \<Rightarrow>
             fetchRetry_loop e url tries label (i + 1) (Some err)
               (tr' @ [Sleep (BACKOFF_BASE_MS * 2 ^ i)]))
      else
        (Inl (case lastErr of Some err \<Rightarrow> err | None \<Rightarrow> AttemptsFailed label tries), tr))"
  by pat_completeness auto
termination
  by (relation "measure (\<lambda>(e, url, tries, label, i, lastErr, tr). tries - i)") auto

definition fetchRetry :: "env \<Rightarrow> string \<Rightarrow> nat \<Rightarrow> string \<Rightarrow> trace \<Rightarrow> (error + string) \<times> trace" where
  "fetchRetry e url tries label tr = fetchRetry_loop e url tries label 0 None tr"

section \<open>Eligibility Filter\<close>

definition is_unreserved :: "char \<Rightarrow> bool" where
  "is_unreserved c =
     (is_upper c \<or> is_lower c \<or> is_digit c \<or> c \<in> set (''-_.!~*()'' @ [CHR 0x27]))"

definition hex_digit :: "nat \<Rightarrow> char" where
  "hex_digit n = ''0123456789ABCDEF'' ! n"

definition encodeURIComponent :: "string \<Rightarrow> string" where
  "encodeURIComponent s =
     concat (map (\<lambda>c. if is_unreserved c then [c]
                      else [CHR ''%'', hex_digit (of_char c div 16), hex_digit (of_char c mod 16)]) s)"

definition mcToSnapshotUrl :: "string \<Rightarrow> string" where
  "mcToSnapshotUrl mc =
     ''https://safer.fmcsa.dot.gov/query.asp?searchtype=ANY&query_type=queryCarrierSnapshot&query_param=MC_MX&query_string=''
       @ encodeURIComponent (re_replace (Plus Space) False [] mc)"

text \<open>\<^verbatim>\<open>Math.ceil(Math.abs(today - formDate) / (1000 * 60 * 60 * 24))\<close> on two valid
  dates, in exact arithmetic. The program only compares the result with
  \<^verbatim>\<open>MIN_AGE_DAYS\<close>: the difference of two time values is an integer that a double
  holds exactly, and near the minimum a double is far finer than one millisecond of a
  day, so the comparison comes out as it does on doubles.\<close>

definition diffDays :: "int \<Rightarrow> int \<Rightarrow> int" where
  "diffDays now formDate = \<lceil>(of_int \<bar>now - formDate\<bar> :: rat) / (1000 * 60 * 60 * 24)\<rceil>"

text \<open>\<^verbatim>\<open>isNaN(n) || n < 1\<close> on \<^verbatim>\<open>Number(text.replace(/,/g, ''))\<close>.\<close>

definition below_minimum :: "string \<Rightarrow> bool" where
  "below_minimum text =
     (let n = Number_js (replace_char CHR '','' [] text) in isNaN n \<or> below_one n)"

text \<open>
  The filter of \<^verbatim>\<open>handleMC\<close>, lines 207 to 244 of \<^verbatim>\<open>extractor.js\<close> and 159 to
  200 of \<^verbatim>\<open>part_000\<close>, the same text in both: the first stage that returns
  \<^verbatim>\<open>{ valid: false }\<close>, or \<open>None\<close> when none does. With an invalid date
  \<^verbatim>\<open>diffDays\<close> is \<^verbatim>\<open>NaN\<close> and the comparison \<^verbatim>\<open>diffDays < MIN_AGE_DAYS\<close>
  is false.
\<close>

datatype stage = NotFound | NotAuthorized | NoDate | TooNew | FewUnits | FewDrivers

definition eligibility :: "env \<Rightarrow> string \<Rightarrow> stage option" where
  "eligibility e html =
     (let upperCaseHtml = toUpperCase html in
      if includes_str upperCaseHtml ''RECORD NOT FOUND'' \<or> includes_str upperCaseHtml ''RECORD INACTIVE''
      then Some NotFound
      else
        let authStatusText = toUpperCase (extractDataByHeader html ''Operating Authority Status:'') in
        if includes_str authStatusText ''NOT AUTHORIZED'' \<or> \<not> includes_str authStatusText ''AUTHORIZED''
        then Some NotAuthorized
        else
          let dateStr = extractDataByHeader html ''MCS-150 Form Date:'' in
          if dateStr = [] then Some NoDate
          else if (case parseDate e dateStr of
                     None \<Rightarrow> False
                   | Some formDate \<Rightarrow> diffDays (today e) formDate < MIN_AGE_DAYS)
          then Some TooNew
          else if below_minimum (extractDataByHeader html ''Power Units:'') then Some FewUnits
          else if below_minimum (extractDataByHeader html ''Drivers:'') then Some FewDrivers
          else None)"


section \<open>Field extraction: addresses and marked rows\<close>

abbreviation dq :: char where
  "dq \<equiv> CHR 0x22"

abbreviation sq :: char where
  "sq \<equiv> CHR 0x27"

text \<open>A capture of a successful match; the groups read below are outside every
  alternative and quantifier, so they are always set.\<close>

definition grp :: "caps \<Rightarrow> nat \<Rightarrow> string" where
  "grp cs i = (case map_of cs i of Some g \<Rightarrow> g | None \<Rightarrow> [])"

text \<open>\<^verbatim>\<open>/,?\s*([^,]+),\s*([A-Z]{2})\s*(\d{5}(?:-\d{4})?)/\<close>\<close>

definition addressRegex :: re where
  "addressRegex =
     Seq (Opt (Lit CHR '',''))
    (Seq (Star True Space)
    (Seq (Grp 1 (Plus (NoneOf '','')))
    (Seq (Lit CHR '','')
    (Seq (Star True Space)
    (Seq (Grp 2 (Rep 2 (Cls False is_upper)))
    (Seq (Star True Space)
         (Grp 3 (Seq (Rep 5 Digit) (Opt (Seq (Lit CHR ''-'') (Rep 4 Digit)))))))))))"

text \<open>Element 0 of \<^verbatim>\<open>t.split(/\s+/)\<close> for a trimmed \<open>t\<close>.\<close>

definition first_word :: "string \<Rightarrow> string" where
  "first_word t = takeWhile (\<lambda>c. \<not> is_space c) t"

record address =
  city :: string
  state :: string

text \<open>\<^verbatim>\<open>parseAddress\<close> of \<^verbatim>\<open>extractor.js\<close>.\<close>

definition parseAddress :: "string \<Rightarrow> address" where
  "parseAddress addressString =
     (if addressString = [] then \<lparr>city = [], state = []\<rparr>
      else
        (case re_search addressRegex False addressString of
           Some st \<Rightarrow> \<lparr>city = trim (grp (snd st) 1), state = trim (grp (snd st) 2)\<rparr>
         | None \<Rightarrow>
             (let parts = split_on CHR '','' addressString in
              if 2 \<le> length parts then
                (let stateZip = first_word (trim (parts ! (length parts - 1))) in
                 \<lparr>city = trim (parts ! (length parts - 2)), state = stateZip\<rparr>)
              else \<lparr>city = [], state = []\<rparr>)))"

record address_p0 =
  city_p0 :: string
  state_p0 :: string
  zip_p0 :: string

text \<open>\<^verbatim>\<open>parseAddress\<close> of \<^verbatim>\<open>part_000\<close>.\<close>

definition parseAddress_p0 :: "string \<Rightarrow> address_p0" where
  "parseAddress_p0 addressString =
     (if addressString = [] then \<lparr>city_p0 = [], state_p0 = [], zip_p0 = []\<rparr>
      else
        (case re_search addressRegex False addressString of
           Some st \<Rightarrow>
             \<lparr>city_p0 = trim (grp (snd st) 1), state_p0 = trim (grp (snd st) 2),
              zip_p0 = trim (grp (snd st) 3)\<rparr>
         | None \<Rightarrow> \<lparr>city_p0 = [], state_p0 = [], zip_p0 = []\<rparr>))"

text \<open>\<^verbatim>\<open>/<td class="queryfield"[^>]*>X<\/td>\s*<td><font[^>]+>([^<]+)<\/font><\/td>/gi\<close>\<close>

definition findXRegex :: re where
  "findXRegex =
     Seq (Str (''<td class='' @ [dq] @ ''queryfield'' @ [dq]))
    (Seq (Star True (NoneOf ''>''))
    (Seq (Str ''>X</td>'')
    (Seq (Star True Space)
    (Seq (Str ''<td><font'')
    (Seq (Plus (NoneOf ''>''))
    (Seq (Lit CHR ''>'')
    (Seq (Grp 1 (Plus (NoneOf ''<'')))
         (Str ''</font></td>''))))))))"

text \<open>
  The loop \<^verbatim>\<open>while ((match = findXRegex.exec(s)) !== null)\<close>: the pattern has the
  \<^verbatim>\<open>g\<close> flag, so each search starts where the last match ended. The result is the
  captures of the matches, in order. The loop ends because every match of the pattern
  reads at least one character.
\<close>

lemma consuming_findX: "consuming findXRegex"
  by (simp add: findXRegex_def consuming_Str)

function findX_exec :: "string \<Rightarrow> caps list" where
  "findX_exec s =
     (case re_search findXRegex True s of
        None \<Rightarrow> []
      | Some st \<Rightarrow> snd st # findX_exec (fst st))"
  by pat_completeness auto
termination
  by (relation "measure length") (auto dest: re_search_consumes [OF consuming_findX])

text \<open>\<^verbatim>\<open>[...new Set(items)]\<close>: a set keeps the order of first insertion.\<close>

definition uniq :: "string list \<Rightarrow> string list" where
  "uniq items = fold (\<lambda>x acc. if x \<in> set acc then acc else acc @ [x]) items []"

text \<open>The marked rows of a piece of page text: the \<^verbatim>\<open>exec\<close> loop, the trimmed first
  group of every match, and the set.\<close>

definition markedRows :: "string \<Rightarrow> string list" where
  "markedRows tableHtml = map (\<lambda>cs. trim (grp cs 1)) (findX_exec tableHtml)"

text \<open>The section pattern of \<^verbatim>\<open>extractor.js\<close>; the label is escaped there, so it
  stands for itself: \<^verbatim>\<open>LABEL<\/a><\/td>[\s\S]*?<table.*?([\s\S]*?)<\/table>\<close>, flag
  \<^verbatim>\<open>i\<close>.\<close>

definition sectionRegex :: "string \<Rightarrow> re" where
  "sectionRegex sectionHeader =
     Seq (Str (sectionHeader @ ''</a></td>''))
    (Seq (Star False AnyChar)
    (Seq (Str ''<table'')
    (Seq (Star False Dot)
    (Seq (Grp 1 (Star False AnyChar))
         (Str ''</table>'')))))"

text \<open>The first group of a match when the match exists and the group is not empty
  (\<^verbatim>\<open>m && m[1]\<close>).\<close>

definition group1 :: "re \<Rightarrow> bool \<Rightarrow> string \<Rightarrow> string option" where
  "group1 r ci s =
     (case group (re_search r ci s) 1 of
        Some g \<Rightarrow> if g \<noteq> [] then Some g else None
      | None \<Rightarrow> None)"

text \<open>\<^verbatim>\<open>getXMarkedItems\<close> of \<^verbatim>\<open>extractor.js\<close>.\<close>

definition getXMarkedItems :: "string \<Rightarrow> string \<Rightarrow> string list" where
  "getXMarkedItems html sectionHeader =
     (case group1 (sectionRegex sectionHeader) True html of
        None \<Rightarrow>
          if includes_str sectionHeader ''Operation Classification'' then
            (case group1 (sectionRegex ''Operation Classification:'') True html of
               None \<Rightarrow> []
             | Some tableHtml \<Rightarrow> uniq (markedRows tableHtml))
          else []
      | Some tableHtml \<Rightarrow> uniq (markedRows tableHtml))"

text \<open>\<^verbatim>\<open>getXMarkedItems\<close> of \<^verbatim>\<open>part_000\<close>, which takes the page only.\<close>

definition getXMarkedItems_p0 :: "string \<Rightarrow> string list" where
  "getXMarkedItems_p0 html = uniq (markedRows html)"

section \<open>Deep-Fetch Resolver and full extraction\<close>

text \<open>\<^verbatim>\<open>/href=["']([^"']*(safer_xfr\.aspx|\/SMS\/)[^"']*)["']/i\<close>\<close>

definition smsLinkRegex :: re where
  "smsLinkRegex =
     Seq (Str ''href='')
    (Seq (OneOf [dq, sq])
    (Seq (Grp 1 (Seq (Star True (NoneOf [dq, sq]))
                (Seq (Grp 2 (Alt (Str ''safer_xfr.aspx'') (Str ''/SMS/'')))
                     (Star True (NoneOf [dq, sq])))))
         (OneOf [dq, sq])))"

text \<open>\<^verbatim>\<open>/href=["']([^"']*CarrierRegistration\.aspx[^"']*)["']/i\<close>\<close>

definition regLinkRegex :: re where
  "regLinkRegex =
     Seq (Str ''href='')
    (Seq (OneOf [dq, sq])
    (Seq (Grp 1 (Seq (Star True (NoneOf [dq, sq]))
                (Seq (Str ''CarrierRegistration.aspx'')
                     (Star True (NoneOf [dq, sq])))))
         (OneOf [dq, sq])))"

text \<open>\<^verbatim>\<open>/([a-zA-Z0-9._%+-]+@[a-zA-Z0-9.-]+\.[a-zA-Z]{2,})/\<close>\<close>

definition emailRegex :: re where
  "emailRegex =
     Grp 1
       (Seq (Plus (Cls False (\<lambda>c. is_lower c \<or> is_upper c \<or> is_digit c \<or> c \<in> set ''._%+-'')))
       (Seq (Lit CHR ''@'')
       (Seq (Plus (Cls False (\<lambda>c. is_lower c \<or> is_upper c \<or> is_digit c \<or> c \<in> set ''.-'')))
       (Seq (Lit CHR ''.'')
       (Seq (Rep 2 (Cls False (\<lambda>c. is_lower c \<or> is_upper c)))
            (Star True (Cls False (\<lambda>c. is_lower c \<or> is_upper c))))))))"

text \<open>
  The e-mail chain of \<^verbatim>\<open>extractAllData\<close> in \<^verbatim>\<open>extractor.js\<close>, lines 162 to 180.
  The first \<^verbatim>\<open>new URL(...)\<close> stands before the \<^verbatim>\<open>try\<close>: when it throws, the
  function throws. Everything after it is inside the \<^verbatim>\<open>try\<close>, whose \<^verbatim>\<open>catch\<close>
  leaves the e-mail empty.
\<close>

definition deepFetch :: "env \<Rightarrow> string \<Rightarrow> string \<Rightarrow> trace \<Rightarrow> (error + string) \<times> trace" where
  "deepFetch e url html tr =
     (case group1 smsLinkRegex True html of
        None \<Rightarrow> (Inr [], tr)
      | Some href \<Rightarrow>
          (case resolveURL e href url of
             None \<Rightarrow> (Inl (InvalidURL href), tr)
           | Some smsLink \<Rightarrow>
               (case fetchRetry e smsLink MAX_RETRIES ''sms'' (tr @ [Sleep 300]) of
                  (Inl err, tr1) \<Rightarrow> (Inr [], tr1)
                | (Inr smsHtml, tr1) \<Rightarrow>
                    (case group1 regLinkRegex True smsHtml of
                       None \<Rightarrow> (Inr [], tr1)
                     | Some href2 \<Rightarrow>
                         (case resolveURL e href2 smsLink of
                            None \<Rightarrow> (Inr [], tr1)
                          | Some regLink \<Rightarrow>
                              (case fetchRetry e regLink MAX_RETRIES ''registration'' (tr1 @ [Sleep 300]) of
                                 (Inl err, tr2) \<Rightarrow> (Inr [], tr2)
                               | (Inr regHtml, tr2) \<Rightarrow>
                                   (case re_search emailRegex False regHtml of
                                      None \<Rightarrow> (Inr [], tr2)
                                    | Some st \<Rightarrow> (Inr (grp (snd st) 1), tr2))))))))"

text \<open>\<^verbatim>\<open>absoluteUrl\<close> of \<^verbatim>\<open>part_000\<close>: the link itself when it does not resolve.\<close>

definition absoluteUrl :: "env \<Rightarrow> string \<Rightarrow> string \<Rightarrow> string" where
  "absoluteUrl e base href = (case resolveURL e href base of Some u \<Rightarrow> u | None \<Rightarrow> href)"

text \<open>The e-mail chain of \<^verbatim>\<open>extractAllData\<close> in \<^verbatim>\<open>part_000\<close>, lines 130 to 148.\<close>

definition deepFetch_p0 :: "env \<Rightarrow> string \<Rightarrow> string \<Rightarrow> trace \<Rightarrow> string \<times> trace" where
  "deepFetch_p0 e url html tr =
     (case group1 smsLinkRegex True html of
        None \<Rightarrow> ([], tr)
      | Some href \<Rightarrow>
          (let smsLink = absoluteUrl e url href in
           case fetchRetry e smsLink MAX_RETRIES ''sms'' (tr @ [Sleep 300]) of
             (Inl err, tr1) \<Rightarrow> ([], tr1)
           | (Inr smsHtml, tr1) \<Rightarrow>
               (case group1 regLinkRegex True smsHtml of
                  None \<Rightarrow> ([], tr1)
                | Some href2 \<Rightarrow>
                    (let regLink = absoluteUrl e smsLink href2 in
                     case fetchRetry e regLink MAX_RETRIES ''registration'' (tr1 @ [Sleep 300]) of
                       (Inl err, tr2) \<Rightarrow> ([], tr2)
                     | (Inr regHtml, tr2) \<Rightarrow>
                         (case re_search emailRegex False regHtml of
                            None \<Rightarrow> ([], tr2)
                          | Some st \<Rightarrow> (grp (snd st) 1, tr2))))))"

record carrier_row =
  MC_Number :: string
  USDOT_Number :: string
  Legal_Name :: string
  City :: string
  State :: string
  Status :: string
  Authority_Type :: string
  Power_Units :: string
  Drivers :: string
  Cargo_Carried :: string
  Phone :: string
  Email :: string
  Operation_Type :: string
  Entity_Type :: string
  Script_Output :: string

text \<open>The record of \<^verbatim>\<open>extractAllData\<close> in \<^verbatim>\<open>extractor.js\<close> for a given e-mail:
  everything the function reads from the snapshot page alone.\<close>

definition pageRow :: "string \<Rightarrow> string \<Rightarrow> carrier_row" where
  "pageRow html email =
     (let legalName = extractDataByHeader html ''Legal Name:'';
          usdotNumber = extractDataByHeader html ''USDOT Number:'';
          phone = extractDataByHeader html ''Phone:'';
          entityType = extractDataByHeader html ''Entity Type:'';
          powerUnits = extractDataByHeader html ''Power Units:'';
          drivers = extractDataByHeader html ''Drivers:'';
          usdotStatus = extractDataByHeader html ''USDOT Status:'';
          authStatusText = extractDataByHeader html ''Operating Authority Status:'';
          status = (if includes_str (toUpperCase usdotStatus) ''ACTIVE''
                       \<and> includes_str (toUpperCase authStatusText) ''AUTHORIZED''
                    then ''Active'' else ''Inactive'');
          mcNumber = (case group1 (Seq (Str ''MC-'') (Grp 1 (Seq (Rep 3 Digit) (Upto 6 Digit)))) True html of
                        Some g \<Rightarrow> g | None \<Rightarrow> []);
          physicalAddress = extractDataByHeader html ''Physical Address:'';
          a = parseAddress physicalAddress;
          authorityType =
            (case re_search (Seq (Str ''AUTHORIZED FOR '')
                               (Grp 1 (Alt (Str ''Property'') (Alt (Str ''Passenger'') (Str ''HHG'')))))
                    True authStatusText of
               Some st \<Rightarrow> grp (snd st) 1 | None \<Rightarrow> []);
          operationTypes = getXMarkedItems html ''Carrier Operation:'';
          cargoCarried = getXMarkedItems html ''Cargo Carried:''
      in \<lparr>MC_Number = mcNumber, USDOT_Number = usdotNumber, Legal_Name = legalName,
          City = city a, State = state a, Status = status, Authority_Type = authorityType,
          Power_Units = powerUnits, Drivers = drivers, Cargo_Carried = join '', '' cargoCarried,
          Phone = phone, Email = email, Operation_Type = join '', '' operationTypes,
          Entity_Type = entityType, Script_Output = []\<rparr>)"

definition extractAllData :: "env \<Rightarrow> string \<Rightarrow> string \<Rightarrow> trace \<Rightarrow> (error + carrier_row) \<times> trace" where
  "extractAllData e url html tr =
     (case deepFetch e url html tr of
        (Inl err, tr') \<Rightarrow> (Inl err, tr')
      | (Inr email, tr') \<Rightarrow> (Inr (pageRow html email), tr'))"

record carrier_row_p0 =
  entityType :: string
  legalName :: string
  dbaName :: string
  mcNumber :: string
  phone :: string
  email :: string
  physicalAddress :: string
  mailingAddress :: string
  row_city :: string
  row_state :: string
  row_zip :: string
  operationType :: string
  row_url :: string

definition pageRow_p0 :: "string \<Rightarrow> string \<Rightarrow> string \<Rightarrow> carrier_row_p0" where
  "pageRow_p0 url html em =
     (let et = extractDataByHeader html ''Entity Type:'';
          ln = extractDataByHeader html ''Legal Name:'';
          dba = extractDataByHeader html ''DBA Name:'';
          pa = extractDataByHeader html ''Physical Address:'';
          ma = extractDataByHeader html ''Mailing Address:'';
          a = parseAddress_p0 (if pa \<noteq> [] then pa else ma);
          xMarkedItems = getXMarkedItems_p0 html;
          ot = (if ''Auth. For Hire'' \<in> set xMarkedItems then ''Property''
                else if ''Passengers'' \<in> set xMarkedItems then ''Passenger''
                else if ''Broker'' \<in> set xMarkedItems then ''Broker'' else []);
          mc = (case group1 (Seq (Str ''MC-'') (Grp 1 (Seq (Rep 3 Digit) (Upto 4 Digit)))) True html of
                  Some g \<Rightarrow> ''MC-'' @ g | None \<Rightarrow> []);
          ph = extractDataByHeader html ''Phone:''
      in \<lparr>entityType = et, legalName = ln, dbaName = dba, mcNumber = mc, phone = ph,
          email = em, physicalAddress = pa, mailingAddress = ma, row_city = city_p0 a,
          row_state = state_p0 a, row_zip = zip_p0 a, operationType = ot, row_url = url\<rparr>)"

definition extractAllData_p0 :: "env \<Rightarrow> string \<Rightarrow> string \<Rightarrow> trace \<Rightarrow> carrier_row_p0 \<times> trace" where
  "extractAllData_p0 e url html tr =
     (case deepFetch_p0 e url html tr of (em, tr') \<Rightarrow> (pageRow_p0 url html em, tr'))"

section \<open>The pipeline of one Identifier\<close>

record result =
  valid :: bool
  row :: "carrier_row option"

text \<open>\<^verbatim>\<open>handleMC\<close> of \<^verbatim>\<open>extractor.js\<close>: the \<^verbatim>\<open>catch\<close> around the whole body
  turns every error into \<^verbatim>\<open>{ valid: false }\<close>.\<close>

definition handleMC :: "env \<Rightarrow> string \<Rightarrow> trace \<Rightarrow> result \<times> trace" where
  "handleMC e mc tr =
     (let url = mcToSnapshotUrl mc in
      case fetchRetry e url MAX_RETRIES ''snapshot'' tr of
        (Inl err, tr1) \<Rightarrow> (\<lparr>valid = False, row = None\<rparr>, tr1)
      | (Inr html, tr1) \<Rightarrow>
          (case eligibility e html of
             Some reason \<Rightarrow> (\<lparr>valid = False, row = None\<rparr>, tr1)
           | None \<Rightarrow>
               (case extractAllData e url html tr1 of
                  (Inl err, tr2) \<Rightarrow> (\<lparr>valid = False, row = None\<rparr>, tr2)
                | (Inr r, tr2) \<Rightarrow> (\<lparr>valid = True, row = Some r\<rparr>, tr2))))"

record result_p0 =
  valid_p0 :: bool
  url_p0 :: "string option"
  row_p0 :: "carrier_row_p0 option"

text \<open>\<^verbatim>\<open>handleMC\<close> of \<^verbatim>\<open>part_000\<close>.\<close>

definition handleMC_p0 :: "env \<Rightarrow> string \<Rightarrow> trace \<Rightarrow> result_p0 \<times> trace" where
  "handleMC_p0 e mc tr =
     (let url = mcToSnapshotUrl mc in
      case fetchRetry e url MAX_RETRIES ''snapshot'' tr of
        (Inl err, tr1) \<Rightarrow> (\<lparr>valid_p0 = False, url_p0 = None, row_p0 = None\<rparr>, tr1)
      | (Inr html, tr1) \<Rightarrow>
          (case eligibility e html of
             Some reason \<Rightarrow> (\<lparr>valid_p0 = False, url_p0 = None, row_p0 = None\<rparr>, tr1)
           | None \<Rightarrow>
               if MODE e = ''urls'' then (\<lparr>valid_p0 = True, url_p0 = Some url, row_p0 = None\<rparr>, tr1)
               else
                 (case extractAllData_p0 e url html tr1 of
                    (r, tr2) \<Rightarrow> (\<lparr>valid_p0 = True, url_p0 = Some url, row_p0 = Some r\<rparr>, tr2))))"

section \<open>Aggregation and the row sink\<close>

text \<open>The loop over the results of a slice in \<^verbatim>\<open>run\<close> of \<^verbatim>\<open>part_000\<close>, lines 237
  to 242: the rows and the URLs it appends.\<close>

definition collect_p0 :: "result_p0 list \<Rightarrow> carrier_row_p0 list \<times> string list" where
  "collect_p0 results =
     (concat (map (\<lambda>r. if valid_p0 r then (case row_p0 r of Some x \<Rightarrow> [x] | None \<Rightarrow> []) else []) results),
      concat (map (\<lambda>r. if valid_p0 r then (case url_p0 r of Some u \<Rightarrow> (if u \<noteq> [] then [u] else []) | None \<Rightarrow> []) else []) results))"

text \<open>One cell and one line of the CSV file: every value between double quotes, a double
  quote inside written twice, cells joined by commas.\<close>

definition csvCell :: "string \<Rightarrow> string" where
  "csvCell v = [dq] @ replace_char dq [dq, dq] v @ [dq]"

definition csvLine :: "string list \<Rightarrow> string" where
  "csvLine vs = join '','' (map csvCell vs)"

text \<open>
  The header of \<^verbatim>\<open>extractor.js\<close>, the property \<^verbatim>\<open>r[h]\<close> of a row that a name
  selects (\<open>None\<close> for a name the row does not have), the line
  \<^verbatim>\<open>headers.map(h => `"${String(r[h] || '').replace(/"/g, '""')}"`).join(',')\<close> of a row, and
  the text of the file.
\<close>

definition headers :: "string list" where
  "headers =
     [''MC_Number'', ''USDOT_Number'', ''Legal_Name'', ''City'', ''State'', ''Status'',
      ''Authority_Type'', ''Power_Units'', ''Drivers'', ''Cargo_Carried'', ''Phone'',
      ''Email'', ''Operation_Type'', ''Entity_Type'', ''Script_Output'']"

definition rowField :: "carrier_row \<Rightarrow> string \<Rightarrow> string option" where
  "rowField r h =
     map_of
       [(''MC_Number'', MC_Number r), (''USDOT_Number'', USDOT_Number r),
        (''Legal_Name'', Legal_Name r), (''City'', City r), (''State'', State r),
        (''Status'', Status r), (''Authority_Type'', Authority_Type r),
        (''Power_Units'', Power_Units r), (''Drivers'', Drivers r),
        (''Cargo_Carried'', Cargo_Carried r), (''Phone'', Phone r), (''Email'', Email r),
        (''Operation_Type'', Operation_Type r), (''Entity_Type'', Entity_Type r),
        (''Script_Output'', Script_Output r)] h"

definition csvRow :: "carrier_row \<Rightarrow> string" where
  "csvRow r = join '','' (map (\<lambda>h. csvCell (case rowField r h of Some v \<Rightarrow> v | None \<Rightarrow> [])) headers)"

definition csv :: "carrier_row list \<Rightarrow> string" where
  "csv rows = join [CHR 0x0A] (join '','' headers # map csvRow rows)"

text \<open>The same for \<^verbatim>\<open>part_000\<close>, whose rows have the properties \<^verbatim>\<open>city\<close>,
  \<^verbatim>\<open>state\<close>, \<^verbatim>\<open>zip\<close> and \<^verbatim>\<open>url\<close> under these names.\<close>

definition headers_p0 :: "string list" where
  "headers_p0 =
     [''mcNumber'', ''legalName'', ''dbaName'', ''entityType'', ''operationType'', ''phone'',
      ''email'', ''physicalAddress'', ''mailingAddress'', ''city'', ''state'', ''zip'', ''url'']"

definition rowField_p0 :: "carrier_row_p0 \<Rightarrow> string \<Rightarrow> string option" where
  "rowField_p0 r h =
     map_of
       [(''entityType'', entityType r), (''legalName'', legalName r), (''dbaName'', dbaName r),
        (''mcNumber'', mcNumber r), (''phone'', phone r), (''email'', email r),
        (''physicalAddress'', physicalAddress r), (''mailingAddress'', mailingAddress r),
        (''city'', row_city r), (''state'', row_state r), (''zip'', row_zip r),
        (''operationType'', operationType r), (''url'', row_url r)] h"

definition csvRow_p0 :: "carrier_row_p0 \<Rightarrow> string" where
  "csvRow_p0 r =
     join '','' (map (\<lambda>h. csvCell (case rowField_p0 r h of Some v \<Rightarrow> v | None \<Rightarrow> [])) headers_p0)"

definition csv_p0 :: "carrier_row_p0 list \<Rightarrow> string" where
  "csv_p0 rows = join [CHR 0x0A] (join '','' headers_p0 # map csvRow_p0 rows)"

text \<open>What \<^verbatim>\<open>run\<close> of \<^verbatim>\<open>part_000\<close> writes for the results it has collected, lines
  246 to 263: the CSV file when there is a row, and the file of the URLs, one on each
  line, when the mode is \<^verbatim>\<open>urls\<close> and there is a URL.\<close>

definition outputs_p0 :: "env \<Rightarrow> result_p0 list \<Rightarrow> string option \<times> string option" where
  "outputs_p0 e results =
     (case collect_p0 results of
        (rows, validUrls) \<Rightarrow>
          (if rows \<noteq> [] then Some (csv_p0 rows) else None,
           if MODE e = ''urls'' \<and> validUrls \<noteq> [] then Some (join [CHR 0x0A] validUrls) else None))"

text \<open>
  Modelled from the spec: the reader of the CSV file is not part of the repository. A
  line is read field by field: a field starts and ends with a double quote, a doubled
  double quote inside stands for one, and a comma follows every field but the last.
\<close>

datatype csv_state = FieldStart | InField | QuoteSeen

fun csvRead :: "csv_state \<Rightarrow> string \<Rightarrow> string list \<Rightarrow> string \<Rightarrow> string list option" where
  "csvRead FieldStart cur acc [] = None"
| "csvRead FieldStart cur acc (c # cs) = (if c = dq then csvRead InField [] acc cs else None)"
| "csvRead InField cur acc [] = None"
| "csvRead InField cur acc (c # cs) =
     (if c = dq then csvRead QuoteSeen cur acc cs else csvRead InField (cur @ [c]) acc cs)"
| "csvRead QuoteSeen cur acc [] = Some (acc @ [cur])"
| "csvRead QuoteSeen cur acc (c # cs) =
     (if c = dq then csvRead InField (cur @ [dq]) acc cs
      else if c = CHR '','' then csvRead FieldStart [] (acc @ [cur]) cs
      else None)"

definition csvParseLine :: "string \<Rightarrow> string list option" where
  "csvParseLine s = csvRead FieldStart [] [] s"

section \<open>Facts for evaluation\<close>

lemma up_char_code [code]:
  "up_char (Char b0 b1 b2 b3 b4 b5 b6 b7) =
     (if b5 \<and> b6 \<and> \<not> b7 \<and> (b0 \<or> b1 \<or> b2 \<or> b3 \<or> b4) \<and> \<not> (b3 \<and> b4 \<and> (b2 \<or> (b0 \<and> b1)))
      then Char b0 b1 b2 b3 b4 False b6 b7 else Char b0 b1 b2 b3 b4 b5 b6 b7)"
  by (cases b0; cases b1; cases b2; cases b3; cases b4; cases b5; cases b6; cases b7;
      simp add: up_char_def char_of_def bit_0 bit_Suc)

lemma low_char_code [code]:
  "low_char (Char b0 b1 b2 b3 b4 b5 b6 b7) =
     (if \<not> b5 \<and> b6 \<and> \<not> b7 \<and> (b0 \<or> b1 \<or> b2 \<or> b3 \<or> b4) \<and> \<not> (b3 \<and> b4 \<and> (b2 \<or> (b0 \<and> b1)))
      then Char b0 b1 b2 b3 b4 True b6 b7 else Char b0 b1 b2 b3 b4 b5 b6 b7)"
  by (cases b0; cases b1; cases b2; cases b3; cases b4; cases b5; cases b6; cases b7;
      simp add: low_char_def char_of_def bit_0 bit_Suc)

declare fetchRetry_loop.simps [simp del]
declare re_replace.simps [simp del]
declare findX_exec.simps [simp del]

section \<open>Resilient Fetcher: retries and backoff\<close>

text \<open>
  The trace of \<open>n\<close> failed attempts at a URL: each is a request followed by a pause of
  \<open>BACKOFF_BASE_MS * 2 ^ i\<close> milliseconds, \<open>i\<close> counted from zero. Attempt \<open>i\<close> fails when
  the network answers with an error after the \<open>i\<close> failed attempts before it, and
  \<open>lastError\<close> is the error of the last of \<open>tries\<close> attempts (for no attempt at all, the
  error the function makes up).
\<close>

definition failedAttempts :: "string \<Rightarrow> nat \<Rightarrow> trace" where
  "failedAttempts url n = concat (map (\<lambda>i. [Request url, Sleep (BACKOFF_BASE_MS * 2 ^ i)]) [0..<n])"

definition attemptFails :: "env \<Rightarrow> string \<Rightarrow> trace \<Rightarrow> nat \<Rightarrow> bool" where
  "attemptFails e url tr i = isl (network e (tr @ failedAttempts url i) url)"

definition lastError :: "env \<Rightarrow> string \<Rightarrow> nat \<Rightarrow> string \<Rightarrow> trace \<Rightarrow> error" where
  "lastError e url tries label tr =
     (case tries of
        0 \<Rightarrow> AttemptsFailed label tries
      | Suc m \<Rightarrow> (case network e (tr @ failedAttempts url m) url of
                    Inl err \<Rightarrow> err
                  | Inr body \<Rightarrow> AttemptsFailed label tries))"

lemma failedAttempts_Suc:
  "failedAttempts url (Suc n) = failedAttempts url n @ [Request url, Sleep (BACKOFF_BASE_MS * 2 ^ n)]"
  by (simp add: failedAttempts_def)

lemma failedAttempts_0: "failedAttempts url 0 = []"
  by (simp add: failedAttempts_def)

lemma loop_all_fail:
  assumes "\<forall>j. i \<le> j \<and> j < tries \<longrightarrow> attemptFails e url tr j"
    and "i \<le> tries"
    and "lastErr = (case i of 0 \<Rightarrow> None
                    | Suc m \<Rightarrow> (case network e (tr @ failedAttempts url m) url of
                                  Inl err \<Rightarrow> Some err | Inr body \<Rightarrow> None))"
  shows "fetchRetry_loop e url tries label i lastErr (tr @ failedAttempts url i)
           = (Inl (lastError e url tries label tr), tr @ failedAttempts url tries)"
  using assms
proof (induction "tries - i" arbitrary: i lastErr)
  case 0
  then have "i = tries" by simp
  then show ?case
    using "0.prems"(3)
    by (subst fetchRetry_loop.simps) (cases tries; auto simp: lastError_def split: sum.splits)
next
  case (Suc d)
  then have lt: "i < tries" by simp
  with Suc.prems(1) have f: "attemptFails e url tr i" by simp
  then obtain err where err: "network e (tr @ failedAttempts url i) url = Inl err"
    by (auto simp: attemptFails_def isl_def)
  have step: "fetchRetry_loop e url tries label i lastErr (tr @ failedAttempts url i)
      = fetchRetry_loop e url tries label (Suc i) (Some err) (tr @ failedAttempts url (Suc i))"
    using lt err by (subst fetchRetry_loop.simps) (simp add: fetchWithTimeout_def failedAttempts_Suc)
  have "fetchRetry_loop e url tries label (Suc i) (Some err) (tr @ failedAttempts url (Suc i))
      = (Inl (lastError e url tries label tr), tr @ failedAttempts url tries)"
  proof (rule Suc.hyps(1))
    show "d = tries - Suc i" using Suc.hyps(2) by simp
    show "\<forall>j. Suc i \<le> j \<and> j < tries \<longrightarrow> attemptFails e url tr j" using Suc.prems(1) by simp
    show "Suc i \<le> tries" using lt by simp
    show "Some err = (case Suc i of 0 \<Rightarrow> None
                    | Suc m \<Rightarrow> (case network e (tr @ failedAttempts url m) url of
                                  Inl err \<Rightarrow> Some err | Inr body \<Rightarrow> None))"
      using err by simp
  qed
  with step show ?case by simp
qed

lemma loop_success:
  assumes "\<forall>j. i \<le> j \<and> j < n \<longrightarrow> attemptFails e url tr j"
    and "i \<le> n" and "n < tries"
    and "network e (tr @ failedAttempts url n) url = Inr body"
  shows "fetchRetry_loop e url tries label i lastErr (tr @ failedAttempts url i)
           = (Inr body, tr @ failedAttempts url n @ [Request url])"
  using assms
proof (induction "n - i" arbitrary: i lastErr)
  case 0
  then have "i = n" by simp
  then show ?case using "0.prems" by (subst fetchRetry_loop.simps) (simp add: fetchWithTimeout_def)
next
  case (Suc d)
  then have lt: "i < n" by simp
  with Suc.prems(1) have "attemptFails e url tr i" by simp
  then obtain err where err: "network e (tr @ failedAttempts url i) url = Inl err"
    by (auto simp: attemptFails_def isl_def)
  have step: "fetchRetry_loop e url tries label i lastErr (tr @ failedAttempts url i)
      = fetchRetry_loop e url tries label (Suc i) (Some err) (tr @ failedAttempts url (Suc i))"
    using lt Suc.prems(3) err by (subst fetchRetry_loop.simps) (simp add: fetchWithTimeout_def failedAttempts_Suc)
  have "fetchRetry_loop e url tries label (Suc i) (Some err) (tr @ failedAttempts url (Suc i))
      = (Inr body, tr @ failedAttempts url n @ [Request url])"
  proof (rule Suc.hyps(1))
    show "d = n - Suc i" using Suc.hyps(2) by simp
    show "\<forall>j. Suc i \<le> j \<and> j < n \<longrightarrow> attemptFails e url tr j" using Suc.prems(1) by simp
    show "Suc i \<le> n" using lt by simp
    show "n < tries" by (rule Suc.prems(3))
    show "network e (tr @ failedAttempts url n) url = Inr body" by (rule Suc.prems(4))
  qed
  with step show ?case by simp
qed

text \<open>
  Claim C3. When every one of the \<open>tries\<close> attempts fails, \<^verbatim>\<open>fetchRetry\<close> sends
  exactly \<open>tries\<close> requests, pauses \<open>BACKOFF_BASE_MS * 2 ^ i\<close> after failed attempt \<open>i\<close>
  and reports the error of the last attempt. When attempt \<open>n\<close> is the first to succeed,
  its body is returned and the request of attempt \<open>n\<close> is the last event: nothing is
  sent or waited for after it.
\<close>

theorem fetchRetry_attempts:
  "((\<forall>j<tries. attemptFails e url tr j) \<longrightarrow>
      fetchRetry e url tries label tr
        = (Inl (lastError e url tries label tr), tr @ failedAttempts url tries)
      \<and> length (filter (\<lambda>ev. ev = Request url) (failedAttempts url tries)) = tries
      \<and> filter (\<lambda>ev. ev \<noteq> Request url) (failedAttempts url tries)
          = map (\<lambda>i. Sleep (BACKOFF_BASE_MS * 2 ^ i)) [0..<tries])
   \<and> (n < tries \<and> (\<forall>j<n. attemptFails e url tr j)
        \<and> network e (tr @ failedAttempts url n) url = Inr body \<longrightarrow>
      fetchRetry e url tries label tr = (Inr body, tr @ failedAttempts url n @ [Request url]))"
proof (intro conjI impI)
  assume a: "\<forall>j<tries. attemptFails e url tr j"
  have "fetchRetry_loop e url tries label 0 None (tr @ failedAttempts url 0)
          = (Inl (lastError e url tries label tr), tr @ failedAttempts url tries)"
    by (rule loop_all_fail) (use a in simp_all)
  then show "fetchRetry e url tries label tr
        = (Inl (lastError e url tries label tr), tr @ failedAttempts url tries)"
    by (simp add: fetchRetry_def failedAttempts_0)
next
  show "length (filter (\<lambda>ev. ev = Request url) (failedAttempts url tries)) = tries"
    by (induction tries) (simp_all add: failedAttempts_0 failedAttempts_Suc)
next
  show "filter (\<lambda>ev. ev \<noteq> Request url) (failedAttempts url tries)
          = map (\<lambda>i. Sleep (BACKOFF_BASE_MS * 2 ^ i)) [0..<tries]"
    by (induction tries) (simp_all add: failedAttempts_0 failedAttempts_Suc)
next
  assume b: "n < tries \<and> (\<forall>j<n. attemptFails e url tr j)
        \<and> network e (tr @ failedAttempts url n) url = Inr body"
  have "fetchRetry_loop e url tries label 0 None (tr @ failedAttempts url 0)
          = (Inr body, tr @ failedAttempts url n @ [Request url])"
    by (rule loop_success) (use b in simp_all)
  then show "fetchRetry e url tries label tr = (Inr body, tr @ failedAttempts url n @ [Request url])"
    by (simp add: fetchRetry_def failedAttempts_0)
qed

text \<open>Two worlds for the examples: one where every request fails with a status that
  tells the attempts apart, one where the third request succeeds.\<close>

definition downEnv :: env where
  "downEnv = \<lparr>network = (\<lambda>tr url. Inl (HttpStatus (500 + length tr))),
              parseDate = (\<lambda>s. None), today = 0, resolveURL = (\<lambda>rel base. Some rel), MODE = ''both''\<rparr>"

definition flakyEnv :: env where
  "flakyEnv = \<lparr>network = (\<lambda>tr url. if length tr < 4 then Inl TimedOut else Inr ''<html>ok</html>''),
              parseDate = (\<lambda>s. None), today = 0, resolveURL = (\<lambda>rel base. Some rel), MODE = ''both''\<rparr>"

theorem fetchRetry_attempts_witness:
  "fetchRetry downEnv ''u'' 3 ''snapshot'' []
     = (Inl (HttpStatus 504),
        [Request ''u'', Sleep 2000, Request ''u'', Sleep 4000, Request ''u'', Sleep 8000])
   \<and> fetchRetry flakyEnv ''u'' 3 ''snapshot'' []
     = (Inr ''<html>ok</html>'',
        [Request ''u'', Sleep 2000, Request ''u'', Sleep 4000, Request ''u''])"
proof -
  have d: "\<forall>j<3. attemptFails downEnv ''u'' [] j"
    by (simp add: attemptFails_def downEnv_def)
  have f: "2 < (3::nat) \<and> (\<forall>j<2. attemptFails flakyEnv ''u'' [] j)
        \<and> network flakyEnv ([] @ failedAttempts ''u'' 2) ''u'' = Inr ''<html>ok</html>''"
    by (simp add: attemptFails_def flakyEnv_def failedAttempts_def less_Suc_eq numeral_2_eq_2)
  have fa: "failedAttempts ''u'' 3 = [Request ''u'', Sleep 2000, Request ''u'', Sleep 4000, Request ''u'', Sleep 8000]"
    "failedAttempts ''u'' 2 = [Request ''u'', Sleep 2000, Request ''u'', Sleep 4000]"
    by (simp_all add: failedAttempts_def BACKOFF_BASE_MS_def upt_rec)
  have le: "lastError downEnv ''u'' 3 ''snapshot'' [] = HttpStatus 504"
    by (simp add: lastError_def numeral_3_eq_3 downEnv_def failedAttempts_def)
  from fetchRetry_attempts [of 3 downEnv "''u''" "[]" "''snapshot''" 0 "[]"] d
  have "fetchRetry downEnv ''u'' 3 ''snapshot'' []
     = (Inl (lastError downEnv ''u'' 3 ''snapshot'' []), [] @ failedAttempts ''u'' 3)"
    by blast
  moreover
  from fetchRetry_attempts [of 3 flakyEnv "''u''" "[]" "''snapshot''" 2 "''<html>ok</html>''"] f
  have "fetchRetry flakyEnv ''u'' 3 ''snapshot'' []
     = (Inr ''<html>ok</html>'', [] @ failedAttempts ''u'' 2 @ [Request ''u''])"
    by blast
  ultimately show ?thesis
    by (simp add: fa le)
qed

section \<open>The filter decides every record\<close>

text \<open>
  The snapshot fetch of \<^verbatim>\<open>handleMC\<close>, and what the filter of the code looks at.
  \<open>filterMarker\<close> is a marker where the filter looks for it: not-found and inactive
  anywhere on the page, not-authorized in the authority status read from the page.
  \<open>ageCheck\<close> is the age check as the code performs it; it is not the stage of the spec,
  since a date that is present and does not parse passes it.
\<close>

definition snapshot :: "env \<Rightarrow> string \<Rightarrow> trace \<Rightarrow> (error + string) \<times> trace" where
  "snapshot e mc tr = fetchRetry e (mcToSnapshotUrl mc) MAX_RETRIES ''snapshot'' tr"

definition authorityStatus :: "string \<Rightarrow> string" where
  "authorityStatus html = toUpperCase (extractDataByHeader html ''Operating Authority Status:'')"

definition filterMarker :: "string \<Rightarrow> bool" where
  "filterMarker html =
     (includes_str (toUpperCase html) ''RECORD NOT FOUND''
      \<or> includes_str (toUpperCase html) ''RECORD INACTIVE''
      \<or> includes_str (authorityStatus html) ''NOT AUTHORIZED'')"

definition existenceStage :: "string \<Rightarrow> bool" where
  "existenceStage html =
     (\<not> includes_str (toUpperCase html) ''RECORD NOT FOUND''
      \<and> \<not> includes_str (toUpperCase html) ''RECORD INACTIVE'')"

definition authorizationStage :: "string \<Rightarrow> bool" where
  "authorizationStage html =
     (includes_str (authorityStatus html) ''AUTHORIZED''
      \<and> \<not> includes_str (authorityStatus html) ''NOT AUTHORIZED'')"

definition ageCheck :: "env \<Rightarrow> string \<Rightarrow> bool" where
  "ageCheck e html =
     (let dateStr = extractDataByHeader html ''MCS-150 Form Date:'' in
      dateStr \<noteq> [] \<and>
      (case parseDate e dateStr of
         None \<Rightarrow> True
       | Some formDate \<Rightarrow> MIN_AGE_DAYS \<le> diffDays (today e) formDate))"

definition fleetStage :: "string \<Rightarrow> bool" where
  "fleetStage html = (\<not> below_minimum (extractDataByHeader html ''Power Units:''))"

definition driverStage :: "string \<Rightarrow> bool" where
  "driverStage html = (\<not> below_minimum (extractDataByHeader html ''Drivers:''))"

text \<open>
  The words of the spec, for comparison. \<open>pageMarker\<close>: the page contains a not-found,
  inactive or not-authorized marker, anywhere. \<open>minimumAgeStage\<close>: the registration-form
  date is present, parses as a date, and lies at least the minimum number of days from
  today.
\<close>

definition pageMarker :: "string \<Rightarrow> bool" where
  "pageMarker html =
     (includes_str (toUpperCase html) ''RECORD NOT FOUND''
      \<or> includes_str (toUpperCase html) ''RECORD INACTIVE''
      \<or> includes_str (toUpperCase html) ''NOT AUTHORIZED'')"

definition minimumAgeStage :: "env \<Rightarrow> string \<Rightarrow> bool" where
  "minimumAgeStage e html =
     (let dateStr = extractDataByHeader html ''MCS-150 Form Date:'' in
      dateStr \<noteq> [] \<and>
      (case parseDate e dateStr of
         None \<Rightarrow> False
       | Some formDate \<Rightarrow> MIN_AGE_DAYS \<le> diffDays (today e) formDate))"

lemma eligibility_None_iff:
  "eligibility e html = None \<longleftrightarrow>
     existenceStage html \<and> authorizationStage html \<and> ageCheck e html
     \<and> fleetStage html \<and> driverStage html"
  by (auto simp: eligibility_def Let_def existenceStage_def authorizationStage_def
        authorityStatus_def ageCheck_def fleetStage_def driverStage_def
        split: option.splits)

text \<open>The age stage on a date that parses: the day count is compared with the minimum,
  and a date exactly 180 days away counts 180 days, one 179 days away 179.\<close>

lemma diffDays_boundary:
  "diffDays now (now - 180 * 86400000) = 180 \<and> diffDays now (now - 179 * 86400000) = 179
   \<and> diffDays now (now + 180 * 86400000) = 180"
  by (simp add: diffDays_def)

lemma ageCheck_parsed:
  "extractDataByHeader html ''MCS-150 Form Date:'' = d \<Longrightarrow> d \<noteq> [] \<Longrightarrow> parseDate e d = Some t \<Longrightarrow>
     ageCheck e html \<longleftrightarrow> 180 \<le> diffDays (today e) t"
  by (simp add: ageCheck_def MIN_AGE_DAYS_def)

lemma ageCheck_missing:
  "extractDataByHeader html ''MCS-150 Form Date:'' = [] \<Longrightarrow> \<not> ageCheck e html"
  by (simp add: ageCheck_def)

lemma ageCheck_minimumAgeStage:
  "ageCheck e html \<Longrightarrow> parseDate e (extractDataByHeader html ''MCS-150 Form Date:'') \<noteq> None \<Longrightarrow>
     minimumAgeStage e html"
  by (auto simp: ageCheck_def minimumAgeStage_def Let_def split: option.splits)

lemma handleMC_fetch_failed:
  "isl (fst (snapshot e mc tr)) \<Longrightarrow>
     fst (handleMC e mc tr) = \<lparr>valid = False, row = None\<rparr>
     \<and> fst (handleMC_p0 e mc tr) = \<lparr>valid_p0 = False, url_p0 = None, row_p0 = None\<rparr>"
  by (auto simp: handleMC_def handleMC_p0_def snapshot_def Let_def isl_def
        split: prod.splits sum.splits)

lemma filterMarker_rejected: "filterMarker html \<Longrightarrow> eligibility e html \<noteq> None"
  by (auto simp: eligibility_None_iff filterMarker_def existenceStage_def authorizationStage_def)

lemma handleMC_row:
  "row (fst (handleMC e mc tr)) = Some r \<Longrightarrow>
     \<exists>html. fst (snapshot e mc tr) = Inr html \<and> eligibility e html = None"
  by (auto simp: handleMC_def snapshot_def Let_def
        split: prod.splits sum.splits option.splits)

lemma handleMC_p0_row:
  "row_p0 (fst (handleMC_p0 e mc tr)) = Some r \<Longrightarrow>
     \<exists>html. fst (snapshot e mc tr) = Inr html \<and> eligibility e html = None"
  by (auto simp: handleMC_p0_def snapshot_def Let_def
        split: prod.splits sum.splits option.splits if_splits)

lemma handleMC_rejects:
  "fst (snapshot e mc tr) = Inr html \<Longrightarrow> eligibility e html \<noteq> None \<Longrightarrow>
     handleMC e mc tr = (\<lparr>valid = False, row = None\<rparr>, snd (snapshot e mc tr))"
  by (auto simp: handleMC_def snapshot_def Let_def split: prod.splits sum.splits option.splits)

lemma handleMC_p0_rejects:
  "fst (snapshot e mc tr) = Inr html \<Longrightarrow> eligibility e html \<noteq> None \<Longrightarrow>
     handleMC_p0 e mc tr = (\<lparr>valid_p0 = False, url_p0 = None, row_p0 = None\<rparr>, snd (snapshot e mc tr))"
  by (auto simp: handleMC_p0_def snapshot_def Let_def split: prod.splits sum.splits option.splits)

text \<open>
  Claim C1, amended. When the snapshot cannot be fetched, when the page holds a not-found
  or inactive marker, or when the authority status read from it holds a not-authorized
  marker, both variants return \<^verbatim>\<open>{ valid: false }\<close> with no record. When either
  variant returns a record, the snapshot was fetched and the page passed the existence,
  authorization, fleet and driver stages, its registration-form date is present, and,
  when that date parses, it passed the minimum-age stage of the spec.
\<close>

theorem record_only_after_filter:
  "(isl (fst (snapshot e mc tr)) \<or> (fst (snapshot e mc tr) = Inr html \<and> filterMarker html) \<longrightarrow>
      fst (handleMC e mc tr) = \<lparr>valid = False, row = None\<rparr>
      \<and> fst (handleMC_p0 e mc tr) = \<lparr>valid_p0 = False, url_p0 = None, row_p0 = None\<rparr>)
   \<and> (row (fst (handleMC e mc tr)) \<noteq> None \<or> row_p0 (fst (handleMC_p0 e mc tr)) \<noteq> None \<longrightarrow>
      (\<exists>page. fst (snapshot e mc tr) = Inr page
         \<and> existenceStage page \<and> authorizationStage page
         \<and> extractDataByHeader page ''MCS-150 Form Date:'' \<noteq> []
         \<and> (parseDate e (extractDataByHeader page ''MCS-150 Form Date:'') \<noteq> None \<longrightarrow>
              minimumAgeStage e page)
         \<and> fleetStage page \<and> driverStage page))"
proof (intro conjI impI)
  assume a: "isl (fst (snapshot e mc tr)) \<or> (fst (snapshot e mc tr) = Inr html \<and> filterMarker html)"
  show "fst (handleMC e mc tr) = \<lparr>valid = False, row = None\<rparr>"
  proof (cases "isl (fst (snapshot e mc tr))")
    case True
    then show ?thesis by (simp add: handleMC_fetch_failed)
  next
    case False
    with a have f: "fst (snapshot e mc tr) = Inr html" and "filterMarker html" by auto
    then have "eligibility e html \<noteq> None" by (simp add: filterMarker_rejected)
    with f show ?thesis by (simp add: handleMC_rejects)
  qed
  show "fst (handleMC_p0 e mc tr) = \<lparr>valid_p0 = False, url_p0 = None, row_p0 = None\<rparr>"
  proof (cases "isl (fst (snapshot e mc tr))")
    case True
    then show ?thesis by (simp add: handleMC_fetch_failed)
  next
    case False
    with a have f: "fst (snapshot e mc tr) = Inr html" and "filterMarker html" by auto
    then have "eligibility e html \<noteq> None" by (simp add: filterMarker_rejected)
    with f show ?thesis by (simp add: handleMC_p0_rejects)
  qed
next
  assume "row (fst (handleMC e mc tr)) \<noteq> None \<or> row_p0 (fst (handleMC_p0 e mc tr)) \<noteq> None"
  then obtain page where p: "fst (snapshot e mc tr) = Inr page" and el: "eligibility e page = None"
    using handleMC_row handleMC_p0_row by blast
  from el have st: "existenceStage page" "authorizationStage page" "ageCheck e page"
    "fleetStage page" "driverStage page"
    by (simp_all add: eligibility_None_iff)
  from st(3) have d: "extractDataByHeader page ''MCS-150 Form Date:'' \<noteq> []"
    by (auto simp: ageCheck_def Let_def)
  have "parseDate e (extractDataByHeader page ''MCS-150 Form Date:'') \<noteq> None \<longrightarrow>
          minimumAgeStage e page"
    using st(3) by (simp add: ageCheck_minimumAgeStage)
  with p st d show "\<exists>page. fst (snapshot e mc tr) = Inr page
         \<and> existenceStage page \<and> authorizationStage page
         \<and> extractDataByHeader page ''MCS-150 Form Date:'' \<noteq> []
         \<and> (parseDate e (extractDataByHeader page ''MCS-150 Form Date:'') \<noteq> None \<longrightarrow>
              minimumAgeStage e page)
         \<and> fleetStage page \<and> driverStage page"
    by blast
qed

text \<open>An Identifier passes the filter when its snapshot is fetched and no stage rejects
  the page.\<close>

definition passesFilter :: "env \<Rightarrow> string \<Rightarrow> trace \<Rightarrow> bool" where
  "passesFilter e mc tr =
     (case fst (snapshot e mc tr) of
        Inl err \<Rightarrow> False
      | Inr html \<Rightarrow> eligibility e html = None)"

lemma mcToSnapshotUrl_nonempty: "mcToSnapshotUrl mc \<noteq> []"
  by (simp add: mcToSnapshotUrl_def)

lemma handleMC_p0_urls:
  "MODE e = ''urls'' \<Longrightarrow>
     handleMC_p0 e mc tr =
       (if passesFilter e mc tr
        then \<lparr>valid_p0 = True, url_p0 = Some (mcToSnapshotUrl mc), row_p0 = None\<rparr>
        else \<lparr>valid_p0 = False, url_p0 = None, row_p0 = None\<rparr>,
        snd (snapshot e mc tr))"
  by (auto simp: handleMC_p0_def passesFilter_def snapshot_def Let_def
        split: prod.splits sum.splits option.splits)

lemma collect_p0_Cons:
  "collect_p0 (r # rs) =
     ((if valid_p0 r then (case row_p0 r of Some x \<Rightarrow> [x] | None \<Rightarrow> []) else [])
        @ fst (collect_p0 rs),
      (if valid_p0 r then (case url_p0 r of Some u \<Rightarrow> (if u \<noteq> [] then [u] else []) | None \<Rightarrow> [])
       else [])
        @ snd (collect_p0 rs))"
  by (simp add: collect_p0_def)

lemma collect_p0_urls:
  assumes "MODE e = ''urls''"
  shows "collect_p0 (map (\<lambda>c. fst (handleMC_p0 e (fst c) (snd c))) calls)
           = ([], map (\<lambda>c. mcToSnapshotUrl (fst c))
                    (filter (\<lambda>c. passesFilter e (fst c) (snd c)) calls))"
proof (induction calls)
  case Nil
  then show ?case by (simp add: collect_p0_def)
next
  case (Cons c calls)
  show ?case
  proof (cases "passesFilter e (fst c) (snd c)")
    case True
    then have "fst (handleMC_p0 e (fst c) (snd c))
        = \<lparr>valid_p0 = True, url_p0 = Some (mcToSnapshotUrl (fst c)), row_p0 = None\<rparr>"
      by (simp add: handleMC_p0_urls [OF assms])
    then show ?thesis
      using True by (simp add: collect_p0_Cons Cons.IH mcToSnapshotUrl_nonempty)
  next
    case False
    then have "fst (handleMC_p0 e (fst c) (snd c))
        = \<lparr>valid_p0 = False, url_p0 = None, row_p0 = None\<rparr>"
      by (simp add: handleMC_p0_urls [OF assms])
    then show ?thesis
      using False by (simp add: collect_p0_Cons Cons.IH)
  qed
qed

lemma handleMC_p0_full:
  assumes "MODE e \<noteq> ''urls''" and "passesFilter e mc tr"
  shows "\<exists>html em. fst (snapshot e mc tr) = Inr html
           \<and> fst (handleMC_p0 e mc tr)
               = \<lparr>valid_p0 = True, url_p0 = Some (mcToSnapshotUrl mc),
                  row_p0 = Some (pageRow_p0 (mcToSnapshotUrl mc) html em)\<rparr>"
proof -
  from assms(2) obtain html where h: "fst (snapshot e mc tr) = Inr html"
    and el: "eligibility e html = None"
    by (cases "fst (snapshot e mc tr)") (simp_all add: passesFilter_def)
  obtain tr1 where s: "snapshot e mc tr = (Inr html, tr1)"
    using h by (cases "snapshot e mc tr") simp
  obtain em tr2 where d: "deepFetch_p0 e (mcToSnapshotUrl mc) html tr1 = (em, tr2)"
    by (cases "deepFetch_p0 e (mcToSnapshotUrl mc) html tr1") simp
  have "handleMC_p0 e mc tr
          = (\<lparr>valid_p0 = True, url_p0 = Some (mcToSnapshotUrl mc),
              row_p0 = Some (pageRow_p0 (mcToSnapshotUrl mc) html em)\<rparr>, tr2)"
    using assms(1) s el d
    by (simp add: handleMC_p0_def snapshot_def Let_def extractAllData_p0_def)
  with h show ?thesis by auto
qed

text \<open>
  Claim C8. In mode \<^verbatim>\<open>urls\<close>, \<^verbatim>\<open>handleMC\<close> of \<^verbatim>\<open>part_000\<close> never returns a
  row and its trace is the trace of the snapshot fetch alone, so no extraction request
  or pause follows; an Identifier that passes the filter yields its snapshot URL and
  nothing else; \<^verbatim>\<open>run\<close> collects no row and exactly the snapshot URLs of the
  Identifiers that pass the filter, in the order of the calls; and it writes no CSV file
  and, when there is such a URL, the file of these URLs. In every other mode no URL file
  is written, and an Identifier that passes the filter yields the row that full
  extraction reads from its page.
\<close>

theorem urls_mode_skips_extraction:
  "(MODE e = ''urls'' \<longrightarrow>
     row_p0 (fst (handleMC_p0 e mc tr)) = None
     \<and> snd (handleMC_p0 e mc tr) = snd (snapshot e mc tr)
     \<and> (\<forall>html. fst (snapshot e mc tr) = Inr html \<and> eligibility e html = None \<longrightarrow>
          fst (handleMC_p0 e mc tr)
            = \<lparr>valid_p0 = True, url_p0 = Some (mcToSnapshotUrl mc), row_p0 = None\<rparr>)
     \<and> collect_p0 (map (\<lambda>c. fst (handleMC_p0 e (fst c) (snd c))) calls)
          = ([], map (\<lambda>c. mcToSnapshotUrl (fst c))
                   (filter (\<lambda>c. passesFilter e (fst c) (snd c)) calls))
     \<and> outputs_p0 e (map (\<lambda>c. fst (handleMC_p0 e (fst c) (snd c))) calls)
          = (None,
             if filter (\<lambda>c. passesFilter e (fst c) (snd c)) calls = [] then None
             else Some (join [CHR 0x0A]
                          (map (\<lambda>c. mcToSnapshotUrl (fst c))
                             (filter (\<lambda>c. passesFilter e (fst c) (snd c)) calls)))))
   \<and> (MODE e \<noteq> ''urls'' \<longrightarrow>
        snd (outputs_p0 e results) = None
        \<and> (passesFilter e mc tr \<longrightarrow>
             (\<exists>html em. fst (snapshot e mc tr) = Inr html
                \<and> fst (handleMC_p0 e mc tr)
                    = \<lparr>valid_p0 = True, url_p0 = Some (mcToSnapshotUrl mc),
                       row_p0 = Some (pageRow_p0 (mcToSnapshotUrl mc) html em)\<rparr>)))"
proof (intro impI conjI allI)
  assume m: "MODE e = ''urls''"
  show "row_p0 (fst (handleMC_p0 e mc tr)) = None"
    by (simp add: handleMC_p0_urls [OF m])
  show "snd (handleMC_p0 e mc tr) = snd (snapshot e mc tr)"
    by (simp add: handleMC_p0_urls [OF m])
  show "fst (handleMC_p0 e mc tr)
            = \<lparr>valid_p0 = True, url_p0 = Some (mcToSnapshotUrl mc), row_p0 = None\<rparr>"
    if "fst (snapshot e mc tr) = Inr html \<and> eligibility e html = None" for html
    using that by (simp add: handleMC_p0_urls [OF m] passesFilter_def)
  show c: "collect_p0 (map (\<lambda>c. fst (handleMC_p0 e (fst c) (snd c))) calls)
          = ([], map (\<lambda>c. mcToSnapshotUrl (fst c))
                   (filter (\<lambda>c. passesFilter e (fst c) (snd c)) calls))"
    by (rule collect_p0_urls [OF m])
  show "outputs_p0 e (map (\<lambda>c. fst (handleMC_p0 e (fst c) (snd c))) calls)
          = (None,
             if filter (\<lambda>c. passesFilter e (fst c) (snd c)) calls = [] then None
             else Some (join [CHR 0x0A]
                          (map (\<lambda>c. mcToSnapshotUrl (fst c))
                             (filter (\<lambda>c. passesFilter e (fst c) (snd c)) calls))))"
    unfolding outputs_p0_def c using m by simp
next
  assume m: "MODE e \<noteq> ''urls''"
  show "snd (outputs_p0 e results) = None"
    using m by (simp add: outputs_p0_def split: prod.splits)
  show "\<exists>html em. fst (snapshot e mc tr) = Inr html
                \<and> fst (handleMC_p0 e mc tr)
                    = \<lparr>valid_p0 = True, url_p0 = Some (mcToSnapshotUrl mc),
                       row_p0 = Some (pageRow_p0 (mcToSnapshotUrl mc) html em)\<rparr>"
    if "passesFilter e mc tr"
    using m that by (rule handleMC_p0_full)
qed

section \<open>What the deep fetch can do to the verdict\<close>

text \<open>
  In \<^verbatim>\<open>part_000\<close> a page that passes the filter is accepted whatever the network and
  the URL constructor do. In \<^verbatim>\<open>extractor.js\<close> it is accepted exactly when the
  cross-reference link, if there is one, resolves.
\<close>

lemma deepFetch_p0_total: "\<exists>em tr'. deepFetch_p0 e url html tr = (em, tr')"
  by (cases "deepFetch_p0 e url html tr") simp

lemma handleMC_p0_accepts:
  assumes "fst (snapshot e mc tr) = Inr html" and "eligibility e html = None"
  shows "valid_p0 (fst (handleMC_p0 e mc tr))"
    and "MODE e \<noteq> ''urls'' \<Longrightarrow>
           \<exists>em. row_p0 (fst (handleMC_p0 e mc tr)) = Some (pageRow_p0 (mcToSnapshotUrl mc) html em)"
  using assms
  by (auto simp: handleMC_p0_def snapshot_def Let_def extractAllData_p0_def
        split: prod.splits sum.splits option.splits)

lemma handleMC_accepts_iff:
  assumes "fst (snapshot e mc tr) = Inr html" and "eligibility e html = None"
  shows "valid (fst (handleMC e mc tr)) \<longleftrightarrow>
           (case group1 smsLinkRegex True html of
              None \<Rightarrow> True
            | Some href \<Rightarrow> resolveURL e href (mcToSnapshotUrl mc) \<noteq> None)"
  using assms
  by (auto simp: handleMC_def snapshot_def Let_def extractAllData_def deepFetch_def
        split: prod.splits sum.splits option.splits)

lemma handleMC_unresolved_link:
  assumes "snapshot e mc tr = (Inr html, tr1)" and "eligibility e html = None"
    and "group1 smsLinkRegex True html = Some href"
    and "resolveURL e href (mcToSnapshotUrl mc) = None"
  shows "handleMC e mc tr = (\<lparr>valid = False, row = None\<rparr>, tr1)"
  using assms
  by (simp add: handleMC_def snapshot_def Let_def extractAllData_def deepFetch_def)

lemma handleMC_no_link:
  assumes "snapshot e mc tr = (Inr html, tr1)" and "eligibility e html = None"
    and "group1 smsLinkRegex True html = None"
  shows "handleMC e mc tr = (\<lparr>valid = True, row = Some (pageRow html [])\<rparr>, tr1)"
  using assms
  by (simp add: handleMC_def snapshot_def Let_def extractAllData_def deepFetch_def)

lemma handleMC_p0_no_link:
  assumes "snapshot e mc tr = (Inr html, tr1)" and "eligibility e html = None"
    and "group1 smsLinkRegex True html = None" and "MODE e \<noteq> ''urls''"
  shows "handleMC_p0 e mc tr
           = (\<lparr>valid_p0 = True, url_p0 = Some (mcToSnapshotUrl mc),
               row_p0 = Some (pageRow_p0 (mcToSnapshotUrl mc) html [])\<rparr>, tr1)"
  using assms
  by (simp add: handleMC_p0_def snapshot_def Let_def extractAllData_p0_def deepFetch_p0_def)

text \<open>Whatever the deep fetch does, a row that is returned is the row read from the
  snapshot page, with some e-mail.\<close>

lemma pageRow_email: "pageRow html em = (pageRow html [])\<lparr>Email := em\<rparr>"
  by (simp add: pageRow_def Let_def)

lemma pageRow_p0_email: "pageRow_p0 url html em = (pageRow_p0 url html [])\<lparr>email := em\<rparr>"
  by (simp add: pageRow_p0_def Let_def)

lemma handleMC_row_fields:
  "row (fst (handleMC e mc tr)) = Some r \<Longrightarrow>
     \<exists>html em. fst (snapshot e mc tr) = Inr html \<and> r = (pageRow html [])\<lparr>Email := em\<rparr>"
proof -
  assume a: "row (fst (handleMC e mc tr)) = Some r"
  then have "\<exists>html em. fst (snapshot e mc tr) = Inr html \<and> r = pageRow html em"
    by (auto simp: handleMC_def snapshot_def Let_def extractAllData_def
          split: prod.splits sum.splits option.splits)
  then show ?thesis using pageRow_email by metis
qed

lemma handleMC_p0_row_fields:
  "row_p0 (fst (handleMC_p0 e mc tr)) = Some r \<Longrightarrow>
     \<exists>html em. fst (snapshot e mc tr) = Inr html
        \<and> r = (pageRow_p0 (mcToSnapshotUrl mc) html [])\<lparr>email := em\<rparr>"
proof -
  assume a: "row_p0 (fst (handleMC_p0 e mc tr)) = Some r"
  then have "\<exists>html em. fst (snapshot e mc tr) = Inr html \<and> r = pageRow_p0 (mcToSnapshotUrl mc) html em"
    by (auto simp: handleMC_p0_def snapshot_def Let_def extractAllData_p0_def
          split: prod.splits sum.splits option.splits if_splits)
  then show ?thesis using pageRow_p0_email by metis
qed

section \<open>Example pages\<close>

text \<open>
  A world for the examples: the snapshot URL of Identifier \<^verbatim>\<open>123456\<close> answers with the
  given page and every other URL with status 404; the date constructor knows the string
  \<^verbatim>\<open>06/15/2023\<close> (midnight UTC) and calls every other string invalid; today is 200
  days later; the link \<^verbatim>\<open>http://a b/SMS/\<close> does not resolve (the URL constructor
  throws on a space in a host) and every other link resolves to itself.
\<close>

definition sampleEnv :: "string \<Rightarrow> string \<Rightarrow> env" where
  "sampleEnv mode page =
     \<lparr>network = (\<lambda>tr url. if url = mcToSnapshotUrl ''123456'' then Inr page else Inl (HttpStatus 404)),
      parseDate = (\<lambda>s. if s = ''06/15/2023'' then Some 1686787200000 else None),
      today = 1704067200000,
      resolveURL = (\<lambda>rel base. if rel = ''http://a b/SMS/'' then None else Some rel),
      MODE = mode\<rparr>"

definition goodPage :: string where
  "goodPage =
     ''<th><a>Operating Authority Status:</a></th><td>AUTHORIZED FOR Property</td>''
     @ ''<th><a>MCS-150 Form Date:</a></th><td>06/15/2023</td>''
     @ ''<th><a>Power Units:</a></th><td>5</td>''
     @ ''<th><a>Drivers:</a></th><td>3</td>''"

definition notFoundPage :: string where
  "notFoundPage = ''<h1>Record Not Found</h1>''"

definition undatedPage :: string where
  "undatedPage =
     ''<th><a>Operating Authority Status:</a></th><td>AUTHORIZED FOR Property</td>''
     @ ''<th><a>MCS-150 Form Date:</a></th><td>None</td>''
     @ ''<th><a>Power Units:</a></th><td>5</td>''
     @ ''<th><a>Drivers:</a></th><td>3</td>''"

definition brokenLinkPage :: string where
  "brokenLinkPage =
     ''<a href='' @ [dq] @ ''http://a b/SMS/'' @ [dq] @ ''>SMS</a>''
     @ ''<th><a>Operating Authority Status:</a></th><td>AUTHORIZED FOR Property</td>''
     @ ''<th><a>MCS-150 Form Date:</a></th><td>06/15/2023</td>''
     @ ''<th><a>Power Units:</a></th><td>5</td>''
     @ ''<th><a>Drivers:</a></th><td>3</td>''"

definition notAuthorizedPage :: string where
  "notAuthorizedPage = ''<th><a>Operating Authority Status:</a></th><td>NOT AUTHORIZED</td>''"

definition strayMarkerPage :: string where
  "strayMarkerPage =
     ''<th><a>Operating Authority Status:</a></th><td>AUTHORIZED FOR Property</td>''
     @ ''<th><a>MCS-150 Form Date:</a></th><td>06/15/2023</td>''
     @ ''<th><a>Power Units:</a></th><td>5</td>''
     @ ''<th><a>Drivers:</a></th><td>3</td>''
     @ ''<p>Carriers shown as NOT AUTHORIZED may not operate.</p>''"

lemma snapshot_sample:
  "snapshot (sampleEnv m p) ''123456'' [] = (Inr p, [Request (mcToSnapshotUrl ''123456'')])"
  by (simp add: snapshot_def fetchRetry_def fetchRetry_loop.simps MAX_RETRIES_def sampleEnv_def
        fetchWithTimeout_def)

lemma notFoundPage_marker: "filterMarker notFoundPage"
  by code_simp

lemma goodPage_eligible: "eligibility (sampleEnv m p) goodPage = None"
  by code_simp

lemma goodPage_no_link: "group1 smsLinkRegex True goodPage = None"
  by code_simp

lemma undatedPage_date: "extractDataByHeader undatedPage ''MCS-150 Form Date:'' = ''None''"
  by code_simp

lemma undatedPage_eligible: "eligibility (sampleEnv m p) undatedPage = None"
  by code_simp

lemma undatedPage_no_link: "group1 smsLinkRegex True undatedPage = None"
  by code_simp

lemma brokenLinkPage_eligible: "eligibility (sampleEnv m p) brokenLinkPage = None"
  by code_simp

lemma brokenLinkPage_link: "group1 smsLinkRegex True brokenLinkPage = Some ''http://a b/SMS/''"
  by code_simp

lemma notAuthorizedPage_marker: "filterMarker notAuthorizedPage"
  by code_simp

lemma goodPage_date: "extractDataByHeader goodPage ''MCS-150 Form Date:'' = ''06/15/2023''"
  by code_simp

lemma strayMarkerPage_marker: "pageMarker strayMarkerPage"
  by code_simp

lemma strayMarkerPage_eligible: "eligibility (sampleEnv m p) strayMarkerPage = None"
  by code_simp

lemma strayMarkerPage_no_link: "group1 smsLinkRegex True strayMarkerPage = None"
  by code_simp

lemma undatedPage_stage: "\<not> minimumAgeStage (sampleEnv m p) undatedPage"
  by (simp add: minimumAgeStage_def undatedPage_date sampleEnv_def)

lemma snapshot_down: "isl (fst (snapshot downEnv ''123456'' []))"
  by (simp add: snapshot_def fetchRetry_def fetchRetry_loop.simps MAX_RETRIES_def downEnv_def
        fetchWithTimeout_def)

text \<open>
  Claim C1, as stated, fails. A page that holds the words \<^verbatim>\<open>NOT AUTHORIZED\<close> outside
  the authority status, whose status is authorized, is accepted with a record by both
  variants: the filter reads the marker from the status only. And a record is built for
  the page whose date does not parse, which has not passed the minimum-age stage of the
  spec.
\<close>

theorem marker_outside_status_accepted:
  "pageMarker strayMarkerPage
   \<and> fst (handleMC (sampleEnv ''both'' strayMarkerPage) ''123456'' [])
       = \<lparr>valid = True, row = Some (pageRow strayMarkerPage [])\<rparr>
   \<and> fst (handleMC_p0 (sampleEnv ''both'' strayMarkerPage) ''123456'' [])
       = \<lparr>valid_p0 = True, url_p0 = Some (mcToSnapshotUrl ''123456''),
          row_p0 = Some (pageRow_p0 (mcToSnapshotUrl ''123456'') strayMarkerPage [])\<rparr>
   \<and> \<not> minimumAgeStage (sampleEnv ''both'' undatedPage) undatedPage
   \<and> row (fst (handleMC (sampleEnv ''both'' undatedPage) ''123456'' []))
       = Some (pageRow undatedPage [])"
proof -
  let ?e = "sampleEnv ''both'' strayMarkerPage" and ?u = "sampleEnv ''both'' undatedPage"
  have "handleMC ?e ''123456'' []
          = (\<lparr>valid = True, row = Some (pageRow strayMarkerPage [])\<rparr>,
             [Request (mcToSnapshotUrl ''123456'')])"
    by (rule handleMC_no_link)
       (simp_all add: snapshot_sample strayMarkerPage_eligible strayMarkerPage_no_link)
  moreover have "handleMC_p0 ?e ''123456'' []
          = (\<lparr>valid_p0 = True, url_p0 = Some (mcToSnapshotUrl ''123456''),
              row_p0 = Some (pageRow_p0 (mcToSnapshotUrl ''123456'') strayMarkerPage [])\<rparr>,
             [Request (mcToSnapshotUrl ''123456'')])"
    by (rule handleMC_p0_no_link)
       (simp_all add: snapshot_sample strayMarkerPage_eligible strayMarkerPage_no_link,
        simp add: sampleEnv_def)
  moreover have "handleMC ?u ''123456'' []
          = (\<lparr>valid = True, row = Some (pageRow undatedPage [])\<rparr>,
             [Request (mcToSnapshotUrl ''123456'')])"
    by (rule handleMC_no_link)
       (simp_all add: snapshot_sample undatedPage_eligible undatedPage_no_link)
  ultimately show ?thesis
    by (simp add: strayMarkerPage_marker undatedPage_stage)
qed

theorem record_only_after_filter_witness:
  "fst (handleMC downEnv ''123456'' []) = \<lparr>valid = False, row = None\<rparr>
   \<and> fst (handleMC (sampleEnv ''both'' notFoundPage) ''123456'' []) = \<lparr>valid = False, row = None\<rparr>
   \<and> fst (handleMC_p0 (sampleEnv ''both'' notFoundPage) ''123456'' [])
       = \<lparr>valid_p0 = False, url_p0 = None, row_p0 = None\<rparr>
   \<and> fst (handleMC (sampleEnv ''both'' notAuthorizedPage) ''123456'' [])
       = \<lparr>valid = False, row = None\<rparr>
   \<and> row (fst (handleMC (sampleEnv ''both'' goodPage) ''123456'' [])) = Some (pageRow goodPage [])
   \<and> existenceStage goodPage \<and> authorizationStage goodPage
   \<and> minimumAgeStage (sampleEnv ''both'' goodPage) goodPage
   \<and> fleetStage goodPage \<and> driverStage goodPage"
proof -
  let ?e1 = "sampleEnv ''both'' notFoundPage" and ?e2 = "sampleEnv ''both'' goodPage"
    and ?e3 = "sampleEnv ''both'' notAuthorizedPage"
  have 1: "fst (snapshot ?e1 ''123456'' []) = Inr notFoundPage \<and> filterMarker notFoundPage"
    by (simp add: snapshot_sample notFoundPage_marker)
  have 3: "fst (snapshot ?e3 ''123456'' []) = Inr notAuthorizedPage \<and> filterMarker notAuthorizedPage"
    by (simp add: snapshot_sample notAuthorizedPage_marker)
  have r: "handleMC ?e2 ''123456'' []
             = (\<lparr>valid = True, row = Some (pageRow goodPage [])\<rparr>, [Request (mcToSnapshotUrl ''123456'')])"
    by (rule handleMC_no_link) (simp_all add: snapshot_sample goodPage_eligible goodPage_no_link)
  then have 2: "row (fst (handleMC ?e2 ''123456'' [])) \<noteq> None
       \<or> row_p0 (fst (handleMC_p0 ?e2 ''123456'' [])) \<noteq> None"
    by simp
  have s: "fst (snapshot ?e2 ''123456'' []) = Inr goodPage"
    by (simp add: snapshot_sample)
  have p: "parseDate ?e2 (extractDataByHeader goodPage ''MCS-150 Form Date:'') \<noteq> None"
    by (simp add: goodPage_date sampleEnv_def)
  from record_only_after_filter [of downEnv "''123456''" "[]"] snapshot_down
  have d: "fst (handleMC downEnv ''123456'' []) = \<lparr>valid = False, row = None\<rparr>"
    by blast
  from record_only_after_filter [of ?e1 "''123456''" "[]" notFoundPage] 1
  have a: "fst (handleMC ?e1 ''123456'' []) = \<lparr>valid = False, row = None\<rparr>
      \<and> fst (handleMC_p0 ?e1 ''123456'' []) = \<lparr>valid_p0 = False, url_p0 = None, row_p0 = None\<rparr>"
    by blast
  from record_only_after_filter [of ?e3 "''123456''" "[]" notAuthorizedPage] 3
  have c: "fst (handleMC ?e3 ''123456'' []) = \<lparr>valid = False, row = None\<rparr>"
    by blast
  from record_only_after_filter [of ?e2 "''123456''" "[]"] 2 s p
  have b: "existenceStage goodPage \<and> authorizationStage goodPage \<and> minimumAgeStage ?e2 goodPage
      \<and> fleetStage goodPage \<and> driverStage goodPage"
    by auto
  from a b c d r show ?thesis by simp
qed

theorem urls_mode_skips_extraction_witness:
  "handleMC_p0 (sampleEnv ''urls'' goodPage) ''123456'' []
     = (\<lparr>valid_p0 = True, url_p0 = Some (mcToSnapshotUrl ''123456''), row_p0 = None\<rparr>,
        [Request (mcToSnapshotUrl ''123456'')])
   \<and> outputs_p0 (sampleEnv ''urls'' goodPage)
        [fst (handleMC_p0 (sampleEnv ''urls'' goodPage) ''123456'' []),
         fst (handleMC_p0 (sampleEnv ''urls'' goodPage) ''999'' [])]
       = (None, Some (mcToSnapshotUrl ''123456''))
   \<and> handleMC_p0 (sampleEnv ''both'' goodPage) ''123456'' []
     = (\<lparr>valid_p0 = True, url_p0 = Some (mcToSnapshotUrl ''123456''),
         row_p0 = Some (pageRow_p0 (mcToSnapshotUrl ''123456'') goodPage [])\<rparr>,
        [Request (mcToSnapshotUrl ''123456'')])
   \<and> outputs_p0 (sampleEnv ''both'' goodPage)
        [fst (handleMC_p0 (sampleEnv ''both'' goodPage) ''123456'' [])]
       = (Some (csv_p0 [pageRow_p0 (mcToSnapshotUrl ''123456'') goodPage []]), None)"
proof -
  let ?e = "sampleEnv ''urls'' goodPage" and ?b = "sampleEnv ''both'' goodPage"
  let ?calls = "[(''123456'', []), (''999'', [])] :: (string \<times> trace) list"
  have m: "MODE ?e = ''urls''" and mb: "MODE ?b \<noteq> ''urls''"
    by (simp_all add: sampleEnv_def)
  have s: "fst (snapshot ?e ''123456'' []) = Inr goodPage \<and> eligibility ?e goodPage = None"
    by (simp add: snapshot_sample goodPage_eligible)
  have p1: "passesFilter ?e ''123456'' []"
    by (simp add: passesFilter_def snapshot_sample goodPage_eligible)
  have u: "mcToSnapshotUrl ''999'' \<noteq> mcToSnapshotUrl ''123456''"
    by code_simp
  then have "isl (fst (snapshot ?e ''999'' []))"
    by (simp add: snapshot_def fetchRetry_def fetchRetry_loop.simps MAX_RETRIES_def sampleEnv_def
          fetchWithTimeout_def)
  then have p2: "\<not> passesFilter ?e ''999'' []"
    by (auto simp: passesFilter_def isl_def)
  from urls_mode_skips_extraction [of ?e "''123456''" "[]" ?calls] m s
  have h: "fst (handleMC_p0 ?e ''123456'' [])
          = \<lparr>valid_p0 = True, url_p0 = Some (mcToSnapshotUrl ''123456''), row_p0 = None\<rparr>
      \<and> snd (handleMC_p0 ?e ''123456'' []) = snd (snapshot ?e ''123456'' [])"
    and o: "outputs_p0 ?e (map (\<lambda>c. fst (handleMC_p0 ?e (fst c) (snd c))) ?calls)
          = (None,
             if filter (\<lambda>c. passesFilter ?e (fst c) (snd c)) ?calls = [] then None
             else Some (join [CHR 0x0A]
                          (map (\<lambda>c. mcToSnapshotUrl (fst c))
                             (filter (\<lambda>c. passesFilter ?e (fst c) (snd c)) ?calls))))"
    by blast+
  from h have 1: "handleMC_p0 ?e ''123456'' []
     = (\<lparr>valid_p0 = True, url_p0 = Some (mcToSnapshotUrl ''123456''), row_p0 = None\<rparr>,
        [Request (mcToSnapshotUrl ''123456'')])"
    by (simp add: snapshot_sample prod_eq_iff)
  from o p1 p2 have 2: "outputs_p0 ?e
        [fst (handleMC_p0 ?e ''123456'' []), fst (handleMC_p0 ?e ''999'' [])]
       = (None, Some (mcToSnapshotUrl ''123456''))"
    by simp
  have 3: "handleMC_p0 ?b ''123456'' []
     = (\<lparr>valid_p0 = True, url_p0 = Some (mcToSnapshotUrl ''123456''),
         row_p0 = Some (pageRow_p0 (mcToSnapshotUrl ''123456'') goodPage [])\<rparr>,
        [Request (mcToSnapshotUrl ''123456'')])"
    by (rule handleMC_p0_no_link)
       (simp_all add: snapshot_sample goodPage_eligible goodPage_no_link, simp add: sampleEnv_def)
  from urls_mode_skips_extraction [of ?b _ _ _ "[fst (handleMC_p0 ?b ''123456'' [])]"] mb
  have "snd (outputs_p0 ?b [fst (handleMC_p0 ?b ''123456'' [])]) = None"
    by blast
  moreover have "fst (outputs_p0 ?b [fst (handleMC_p0 ?b ''123456'' [])])
      = Some (csv_p0 [pageRow_p0 (mcToSnapshotUrl ''123456'') goodPage []])"
    by (simp add: 3 outputs_p0_def collect_p0_def mcToSnapshotUrl_nonempty)
  ultimately have 4: "outputs_p0 ?b [fst (handleMC_p0 ?b ''123456'' [])]
       = (Some (csv_p0 [pageRow_p0 (mcToSnapshotUrl ''123456'') goodPage []]), None)"
    by (simp add: prod_eq_iff)
  from 1 2 3 4 show ?thesis by simp
qed

text \<open>
  Claim C2. The claim says that an unparseable registration-form date is always rejected.
  On a page whose date cell reads \<^verbatim>\<open>None\<close>, which the date constructor calls invalid,
  both variants accept the Identifier: the day count is \<^verbatim>\<open>NaN\<close> and the comparison
  with the minimum is false.
\<close>

theorem unparseable_date_accepted:
  "extractDataByHeader undatedPage ''MCS-150 Form Date:'' = ''None''
   \<and> parseDate (sampleEnv ''both'' undatedPage) ''None'' = None
   \<and> fst (handleMC (sampleEnv ''both'' undatedPage) ''123456'' [])
       = \<lparr>valid = True, row = Some (pageRow undatedPage [])\<rparr>
   \<and> valid_p0 (fst (handleMC_p0 (sampleEnv ''both'' undatedPage) ''123456'' []))"
proof -
  let ?e = "sampleEnv ''both'' undatedPage"
  have "handleMC ?e ''123456'' []
          = (\<lparr>valid = True, row = Some (pageRow undatedPage [])\<rparr>, [Request (mcToSnapshotUrl ''123456'')])"
    by (rule handleMC_no_link) (simp_all add: snapshot_sample undatedPage_eligible undatedPage_no_link)
  moreover have "valid_p0 (fst (handleMC_p0 ?e ''123456'' []))"
    by (rule handleMC_p0_accepts(1) [where html = undatedPage])
       (simp_all add: snapshot_sample undatedPage_eligible)
  moreover have "parseDate ?e ''None'' = None"
    by (simp add: sampleEnv_def)
  ultimately show ?thesis
    by (simp add: undatedPage_date)
qed

text \<open>
  Claim C4. The claim says that no failure in the deep-fetch chain changes the verdict.
  On a page that passes every stage of the filter and whose cross-reference link does
  not resolve, \<^verbatim>\<open>handleMC\<close> of \<^verbatim>\<open>extractor.js\<close> returns
  \<^verbatim>\<open>{ valid: false }\<close> and no record.
\<close>

theorem unresolved_link_rejects:
  "eligibility (sampleEnv ''both'' brokenLinkPage) brokenLinkPage = None
   \<and> group1 smsLinkRegex True brokenLinkPage = Some ''http://a b/SMS/''
   \<and> resolveURL (sampleEnv ''both'' brokenLinkPage) ''http://a b/SMS/'' (mcToSnapshotUrl ''123456'') = None
   \<and> handleMC (sampleEnv ''both'' brokenLinkPage) ''123456'' []
       = (\<lparr>valid = False, row = None\<rparr>, [Request (mcToSnapshotUrl ''123456'')])"
proof -
  let ?e = "sampleEnv ''both'' brokenLinkPage"
  have r: "resolveURL ?e ''http://a b/SMS/'' (mcToSnapshotUrl ''123456'') = None"
    by (simp add: sampleEnv_def)
  have "handleMC ?e ''123456'' []
       = (\<lparr>valid = False, row = None\<rparr>, [Request (mcToSnapshotUrl ''123456'')])"
    by (rule handleMC_unresolved_link [where html = brokenLinkPage and href = "''http://a b/SMS/''"])
       (simp_all add: snapshot_sample brokenLinkPage_eligible brokenLinkPage_link r)
  with r show ?thesis
    by (simp add: brokenLinkPage_eligible brokenLinkPage_link)
qed

text \<open>
  Claim C10. The claim says that the two variants give every page the same verdict. On
  the page with the link that does not resolve, \<^verbatim>\<open>extractor.js\<close> rejects and
  \<^verbatim>\<open>part_000\<close> (in mode \<^verbatim>\<open>both\<close>) accepts.
\<close>

theorem variants_disagree:
  "valid (fst (handleMC (sampleEnv ''both'' brokenLinkPage) ''123456'' [])) = False
   \<and> valid_p0 (fst (handleMC_p0 (sampleEnv ''both'' brokenLinkPage) ''123456'' [])) = True"
proof -
  let ?e = "sampleEnv ''both'' brokenLinkPage"
  have s: "fst (snapshot ?e ''123456'' []) = Inr brokenLinkPage"
    by (simp add: snapshot_sample)
  have "\<not> valid (fst (handleMC ?e ''123456'' []))"
    using handleMC_accepts_iff [OF s brokenLinkPage_eligible]
    by (simp add: brokenLinkPage_link sampleEnv_def)
  moreover have "valid_p0 (fst (handleMC_p0 ?e ''123456'' []))"
    using s brokenLinkPage_eligible by (rule handleMC_p0_accepts(1))
  ultimately show ?thesis by simp
qed

section \<open>Minimum fleet size and driver count\<close>

text \<open>A number that \<^verbatim>\<open>isNaN(n) || n < 1\<close> lets through: not \<^verbatim>\<open>NaN\<close>, and as a
  double at least one.\<close>

fun at_least_one :: "jsnum \<Rightarrow> bool" where
  "at_least_one NaN = False"
| "at_least_one PosInf = True"
| "at_least_one NegInf = False"
| "at_least_one (Num v) = (1 - 1 / 2 ^ 54 \<le> v)"

lemma below_minimum_iff:
  "\<not> below_minimum t \<longleftrightarrow> at_least_one (Number_js (replace_char CHR '','' [] t))"
  by (cases "Number_js (replace_char CHR '','' [] t)") (auto simp: below_minimum_def isNaN_def)

lemma replace_char_remove: "replace_char d [] s = filter (\<lambda>c. c \<noteq> d) s"
  by (induction s) (simp_all add: replace_char_def)

lemma digit_not_space: "is_digit c \<Longrightarrow> \<not> is_space c"
  by (auto simp: is_digit_def is_space_def)

lemma dropWhile_hd: "xs \<noteq> [] \<Longrightarrow> \<not> P (hd xs) \<Longrightarrow> dropWhile P xs = xs"
  by (cases xs) simp_all

lemma trim_digits:
  assumes "ds \<noteq> []" and "list_all is_digit ds"
  shows "trim ds = ds"
proof -
  have "is_digit (hd ds)" using assms by (cases ds) simp_all
  then have 1: "dropWhile is_space ds = ds"
    using assms(1) by (simp add: dropWhile_hd digit_not_space)
  have "is_digit (last ds)" using assms by (simp add: list_all_iff)
  then have "\<not> is_space (hd (rev ds))"
    using assms(1) by (simp add: hd_rev digit_not_space)
  then have "dropWhile is_space (rev ds) = rev ds"
    using assms(1) by (simp add: dropWhile_hd)
  with 1 show ?thesis by (simp add: trim_def)
qed

lemma startsWith_prefix_digit:
  assumes "list_all is_digit ds" and "\<not> is_digit x"
  shows "\<not> startsWith ds [z, x]"
proof (cases ds)
  case Nil
  then show ?thesis by simp
next
  case (Cons c cs)
  then show ?thesis using assms by (cases cs) auto
qed

lemma unsigned_decimal_digits:
  assumes "ds \<noteq> []" and "list_all is_digit ds"
  shows "unsigned_decimal ds = Num (of_nat (str_nat 10 ds))"
proof -
  have "\<not> is_digit CHR ''I''" by (simp add: is_digit_def)
  then have inf: "ds \<noteq> ''Infinity''" using assms(2) by auto
  have tw: "takeWhile is_digit ds = ds" and dw: "dropWhile is_digit ds = []"
    using assms(2) by (simp_all add: list_all_iff)
  show ?thesis
    unfolding unsigned_decimal_def Let_def tw dw
    using assms(1) inf by (simp add: exponent_part_def scale10_def)
qed

lemma Number_js_digits:
  assumes "ds \<noteq> []" and "list_all is_digit ds"
  shows "Number_js ds = Num (of_nat (str_nat 10 ds))"
proof -
  have nd: "\<not> is_digit CHR ''x''" "\<not> is_digit CHR ''X''" "\<not> is_digit CHR ''o''"
    "\<not> is_digit CHR ''O''" "\<not> is_digit CHR ''b''" "\<not> is_digit CHR ''B''"
    "\<not> is_digit CHR ''+''" "\<not> is_digit CHR ''-''"
    by (simp_all add: is_digit_def)
  have p: "\<not> startsWith ds ''0x''" "\<not> startsWith ds ''0X''" "\<not> startsWith ds ''0o''"
    "\<not> startsWith ds ''0O''" "\<not> startsWith ds ''0b''" "\<not> startsWith ds ''0B''"
    using assms(2) nd by (simp_all add: startsWith_prefix_digit)
  obtain c cs where ds: "ds = c # cs" using assms(1) by (cases ds) auto
  then have "is_digit c" using assms(2) by simp
  then have "c \<noteq> CHR ''+''" "c \<noteq> CHR ''-''" using nd by auto
  then have "Number_js ds = unsigned_decimal ds"
    using p ds assms by (simp add: Number_js_def trim_digits del: startsWith.simps)
  then show ?thesis using assms by (simp add: unsigned_decimal_digits)
qed

lemma digits_minimum:
  assumes "filter (\<lambda>c. c \<noteq> CHR '','') t \<noteq> []"
    and "list_all is_digit (filter (\<lambda>c. c \<noteq> CHR '','') t)"
  shows "\<not> below_minimum t \<longleftrightarrow> 1 \<le> str_nat 10 (filter (\<lambda>c. c \<noteq> CHR '','') t)"
proof -
  let ?n = "str_nat 10 (filter (\<lambda>c. c \<noteq> CHR '','') t)"
  have "(1 - 1 / 2 ^ 54 \<le> (of_nat ?n :: rat)) \<longleftrightarrow> 1 \<le> ?n"
  proof
    assume "1 \<le> ?n"
    then have "(1::rat) \<le> of_nat ?n" by simp
    moreover have "(1::rat) - 1 / 2 ^ 54 \<le> 1" by simp
    ultimately show "1 - 1 / 2 ^ 54 \<le> (of_nat ?n :: rat)" by linarith
  next
    assume a: "1 - 1 / 2 ^ 54 \<le> (of_nat ?n :: rat)"
    show "1 \<le> ?n"
    proof (rule ccontr)
      assume "\<not> 1 \<le> ?n"
      then have "?n = 0" by simp
      with a show False by simp
    qed
  qed
  then show ?thesis
    using assms by (simp add: below_minimum_iff replace_char_remove Number_js_digits)
qed

text \<open>
  Claim C5. The fleet and driver stages pass exactly the field texts that, with their
  commas removed, \<^verbatim>\<open>Number\<close> reads as a number that is at least one; once the three
  stages before them have passed, the verdict is exactly these two stages. For a text of
  digits and commas this is: the number the digits write is at least one. The text
  \<^verbatim>\<open>1\<close> passes; \<^verbatim>\<open>0\<close>, a negative number, a text that is no number and the
  empty text of an absent field do not.
\<close>

theorem minimum_counts:
  "(fleetStage html \<longleftrightarrow>
      at_least_one (Number_js (replace_char CHR '','' [] (extractDataByHeader html ''Power Units:''))))
   \<and> (driverStage html \<longleftrightarrow>
      at_least_one (Number_js (replace_char CHR '','' [] (extractDataByHeader html ''Drivers:''))))
   \<and> (existenceStage html \<and> authorizationStage html \<and> ageCheck e html \<longrightarrow>
        (eligibility e html = None \<longleftrightarrow> fleetStage html \<and> driverStage html))
   \<and> (filter (\<lambda>c. c \<noteq> CHR '','') t \<noteq> [] \<and> list_all is_digit (filter (\<lambda>c. c \<noteq> CHR '','') t) \<longrightarrow>
        (\<not> below_minimum t \<longleftrightarrow> 1 \<le> str_nat 10 (filter (\<lambda>c. c \<noteq> CHR '','') t)))
   \<and> \<not> below_minimum ''1'' \<and> below_minimum ''0'' \<and> below_minimum ''-1''
   \<and> below_minimum ''N/A'' \<and> below_minimum []"
proof (intro conjI impI)
  show "fleetStage html \<longleftrightarrow>
      at_least_one (Number_js (replace_char CHR '','' [] (extractDataByHeader html ''Power Units:'')))"
    by (simp add: fleetStage_def below_minimum_iff)
  show "driverStage html \<longleftrightarrow>
      at_least_one (Number_js (replace_char CHR '','' [] (extractDataByHeader html ''Drivers:'')))"
    by (simp add: driverStage_def below_minimum_iff)
  show "eligibility e html = None \<longleftrightarrow> fleetStage html \<and> driverStage html"
    if "existenceStage html \<and> authorizationStage html \<and> ageCheck e html"
    using that by (simp add: eligibility_None_iff)
  show "\<not> below_minimum t \<longleftrightarrow> 1 \<le> str_nat 10 (filter (\<lambda>c. c \<noteq> CHR '','') t)"
    if "filter (\<lambda>c. c \<noteq> CHR '','') t \<noteq> [] \<and> list_all is_digit (filter (\<lambda>c. c \<noteq> CHR '','') t)"
    using that by (simp add: digits_minimum)
  show "\<not> below_minimum ''1''" by code_simp
  show "below_minimum ''0''" by code_simp
  show "below_minimum ''-1''" by code_simp
  show "below_minimum ''N/A''" by code_simp
  show "below_minimum []" by code_simp
qed

lemma goodPage_stages:
  "existenceStage goodPage \<and> authorizationStage goodPage \<and> ageCheck (sampleEnv m p) goodPage"
  using goodPage_eligible [of m p] by (simp add: eligibility_None_iff)

theorem minimum_counts_witness:
  "eligibility (sampleEnv ''both'' goodPage) goodPage = None
   \<and> fleetStage goodPage \<and> driverStage goodPage
   \<and> \<not> below_minimum ''1,234'' \<and> str_nat 10 ''1234'' = 1234
   \<and> below_minimum ''0,000''"
proof -
  have f: "filter (\<lambda>c. c \<noteq> CHR '','') ''1,234'' = ''1234''"
    "filter (\<lambda>c. c \<noteq> CHR '','') ''0,000'' = ''0000''"
    by simp_all
  have d: "list_all is_digit ''1234''" "list_all is_digit ''0000''"
    by (simp_all add: is_digit_def)
  have v: "str_nat 10 ''1234'' = 1234" "str_nat 10 ''0000'' = 0"
    by code_simp+
  from minimum_counts [of goodPage "sampleEnv ''both'' goodPage" "''1,234''"] goodPage_stages f d
  have 1: "(eligibility (sampleEnv ''both'' goodPage) goodPage = None
              \<longleftrightarrow> fleetStage goodPage \<and> driverStage goodPage)
           \<and> (\<not> below_minimum ''1,234'' \<longleftrightarrow> 1 \<le> str_nat 10 ''1234'')"
    by simp
  from minimum_counts [of goodPage "sampleEnv ''both'' goodPage" "''0,000''"] f d
  have 2: "\<not> below_minimum ''0,000'' \<longleftrightarrow> 1 \<le> str_nat 10 ''0000''"
    by simp
  from 1 2 v goodPage_eligible [of "''both''" goodPage] show ?thesis by simp
qed

section \<open>Marked rows of a section\<close>

text \<open>The set keeps the first occurrence of every label, in the order of the list.\<close>

lemma fold_first_seen:
  "fold (\<lambda>x acc. if x \<in> set acc then acc else acc @ [x]) xs acc
     = acc @ fold (\<lambda>x acc. if x \<in> set acc then acc else acc @ [x]) (filter (\<lambda>y. y \<notin> set acc) xs) []"
proof (induction xs arbitrary: acc rule: length_induct)
  case (1 xs)
  let ?F = "\<lambda>x acc. if x \<in> set acc then acc else acc @ [x]"
  show ?case
  proof (cases xs)
    case Nil
    then show ?thesis by simp
  next
    case (Cons x xs')
    show ?thesis
    proof (cases "x \<in> set acc")
      case True
      have "fold ?F xs' acc = acc @ fold ?F (filter (\<lambda>y. y \<notin> set acc) xs') []"
        using 1 Cons by simp
      then show ?thesis using Cons True by simp
    next
      case False
      have a: "fold ?F xs' (acc @ [x])
                 = (acc @ [x]) @ fold ?F (filter (\<lambda>y. y \<notin> set (acc @ [x])) xs') []"
        using 1 Cons by simp
      have "length (filter (\<lambda>y. y \<notin> set acc) xs') < length xs"
        using Cons by (simp add: le_imp_less_Suc)
      then have b: "fold ?F (filter (\<lambda>y. y \<notin> set acc) xs') [x]
                 = [x] @ fold ?F (filter (\<lambda>y. y \<notin> set [x]) (filter (\<lambda>y. y \<notin> set acc) xs')) []"
        using 1 by blast
      have c: "filter (\<lambda>y. y \<notin> set [x]) (filter (\<lambda>y. y \<notin> set acc) xs')
                 = filter (\<lambda>y. y \<notin> set (acc @ [x])) xs'"
        by (auto intro: filter_cong)
      show ?thesis using Cons False a b c by simp
    qed
  qed
qed

lemma uniq_Nil: "uniq [] = []"
  by (simp add: uniq_def)

lemma uniq_Cons: "uniq (x # xs) = x # uniq (filter (\<lambda>y. y \<noteq> x) xs)"
proof -
  let ?F = "\<lambda>x acc. if x \<in> set acc then acc else acc @ [x]"
  have "uniq (x # xs) = fold ?F xs [x]" by (simp add: uniq_def)
  also have "\<dots> = [x] @ fold ?F (filter (\<lambda>y. y \<notin> set [x]) xs) []"
    by (rule fold_first_seen)
  finally show ?thesis by (simp add: uniq_def)
qed

lemma set_uniq: "set (uniq xs) = set xs"
proof (induction xs rule: length_induct)
  case (1 xs)
  show ?case
  proof (cases xs)
    case Nil
    then show ?thesis by (simp add: uniq_Nil)
  next
    case (Cons x xs')
    have "length (filter (\<lambda>y. y \<noteq> x) xs') < length xs"
      using Cons by (simp add: le_imp_less_Suc)
    then have "set (uniq (filter (\<lambda>y. y \<noteq> x) xs')) = set (filter (\<lambda>y. y \<noteq> x) xs')"
      using 1 by blast
    then show ?thesis using Cons by (auto simp: uniq_Cons)
  qed
qed

lemma distinct_uniq: "distinct (uniq xs)"
proof (induction xs rule: length_induct)
  case (1 xs)
  show ?case
  proof (cases xs)
    case Nil
    then show ?thesis by (simp add: uniq_Nil)
  next
    case (Cons x xs')
    have "length (filter (\<lambda>y. y \<noteq> x) xs') < length xs"
      using Cons by (simp add: le_imp_less_Suc)
    then have "distinct (uniq (filter (\<lambda>y. y \<noteq> x) xs'))"
      using 1 by blast
    then show ?thesis using Cons by (simp add: uniq_Cons set_uniq)
  qed
qed

text \<open>Example pages: three marked rows, two with the same label, once on their own and
  once as the table of the section \<^verbatim>\<open>Cargo Carried:\<close>.\<close>

definition markedRow :: "string \<Rightarrow> string" where
  "markedRow label =
     ''<td class='' @ [dq] @ ''queryfield'' @ [dq] @ ''>X</td><td><font size=2>'' @ label @ ''</font></td>''"

definition looseRows :: string where
  "looseRows = markedRow ''General Freight'' @ markedRow '' Household Goods '' @ markedRow ''General Freight''"

definition sectionPage :: string where
  "sectionPage = ''<a>Cargo Carried:</a></td><table>'' @ looseRows @ ''</table>''"

lemma looseRows_no_section: "group1 (sectionRegex ''Cargo Carried:'') True looseRows = None"
  by code_simp

lemma looseRows_label: "\<not> includes_str ''Cargo Carried:'' ''Operation Classification''"
  by code_simp

lemma looseRows_marked: "uniq (markedRows looseRows) = [''General Freight'', ''Household Goods'']"
  by code_simp

lemma looseRows_items: "getXMarkedItems looseRows ''Cargo Carried:'' = []"
  by (simp add: getXMarkedItems_def looseRows_no_section looseRows_label)

lemma sectionPage_section:
  "group1 (sectionRegex ''Cargo Carried:'') True sectionPage = Some (CHR ''>'' # looseRows)"
  by code_simp

lemma sectionPage_marked: "uniq (markedRows (CHR ''>'' # looseRows)) = [''General Freight'', ''Household Goods'']"
  by code_simp

text \<open>
  Claim C6, as stated, fails: on a page with marked rows and no section anchor the
  section pattern does not match, and \<^verbatim>\<open>getXMarkedItems\<close> of \<^verbatim>\<open>extractor.js\<close>
  returns the empty list although the page as a whole holds two marked labels.
\<close>

theorem whole_page_not_searched:
  "group1 (sectionRegex ''Cargo Carried:'') True looseRows = None
   \<and> getXMarkedItems looseRows ''Cargo Carried:'' = []
   \<and> uniq (markedRows looseRows) = [''General Freight'', ''Household Goods'']"
  by (simp add: looseRows_no_section looseRows_items looseRows_marked)

text \<open>
  Claim C6, amended. \<^verbatim>\<open>getXMarkedItems\<close> of \<^verbatim>\<open>extractor.js\<close> returns the marked
  rows of the text the section pattern captures, duplicates removed in first-seen order.
  When the pattern captures nothing it returns the empty list, unless the label holds
  \<^verbatim>\<open>Operation Classification\<close>: then it tries the pattern of the section
  \<^verbatim>\<open>Operation Classification:\<close> and returns the empty list when that captures nothing
  either. It never searches the whole page. \<^verbatim>\<open>getXMarkedItems\<close> of \<^verbatim>\<open>part_000\<close>
  takes no label and always searches the whole page. Removing duplicates keeps the first
  element and removes it from the rest, so the result has no duplicates and the same
  elements.
\<close>

theorem marked_items:
  "(group1 (sectionRegex h) True html = Some t \<longrightarrow> getXMarkedItems html h = uniq (markedRows t))
   \<and> (group1 (sectionRegex h) True html = None \<and> \<not> includes_str h ''Operation Classification'' \<longrightarrow>
        getXMarkedItems html h = [])
   \<and> (group1 (sectionRegex h) True html = None \<and> includes_str h ''Operation Classification'' \<longrightarrow>
        getXMarkedItems html h
          = (case group1 (sectionRegex ''Operation Classification:'') True html of
               None \<Rightarrow> []
             | Some t' \<Rightarrow> uniq (markedRows t')))
   \<and> getXMarkedItems_p0 html = uniq (markedRows html)
   \<and> uniq [] = []
   \<and> uniq (x # xs) = x # uniq (filter (\<lambda>y. y \<noteq> x) xs)
   \<and> distinct (uniq xs) \<and> set (uniq xs) = set xs"
  by (simp add: getXMarkedItems_def getXMarkedItems_p0_def uniq_Nil uniq_Cons distinct_uniq set_uniq)

theorem marked_items_witness:
  "getXMarkedItems sectionPage ''Cargo Carried:'' = [''General Freight'', ''Household Goods'']
   \<and> getXMarkedItems looseRows ''Cargo Carried:'' = []
   \<and> getXMarkedItems_p0 looseRows = [''General Freight'', ''Household Goods'']"
proof -
  from marked_items [of "''Cargo Carried:''" sectionPage "CHR ''>'' # looseRows"] sectionPage_section
  have 1: "getXMarkedItems sectionPage ''Cargo Carried:'' = uniq (markedRows (CHR ''>'' # looseRows))"
    by blast
  from marked_items [of "''Cargo Carried:''" looseRows] looseRows_no_section looseRows_label
  have 2: "getXMarkedItems looseRows ''Cargo Carried:'' = []"
    and 3: "getXMarkedItems_p0 looseRows = uniq (markedRows looseRows)"
    by blast+
  from 1 2 3 show ?thesis
    by (simp add: sectionPage_marked looseRows_marked)
qed


section \<open>Address decomposition\<close>

lemma length_split_on: "length (split_on d s) = Suc (length (filter (\<lambda>c. c = d) s))"
  by (induction s) (auto split: list.splits)

lemma split_on_two: "2 \<le> length (split_on d s) \<longleftrightarrow> d \<in> set s"
proof -
  have "filter (\<lambda>c. c = d) s \<noteq> [] \<longleftrightarrow> d \<in> set s"
    by (auto simp: filter_empty_conv)
  then show ?thesis
    by (cases "filter (\<lambda>c. c = d) s") (simp_all add: length_split_on)
qed

lemma split_on_last: "split_on d s ! (length (split_on d s) - Suc 0) = last (split_on d s)"
proof -
  have "split_on d s \<noteq> []" using length_split_on [of d s] by auto
  then show ?thesis by (simp add: last_conv_nth)
qed

text \<open>
  Claim C7, as stated, fails: \<^verbatim>\<open>SPRINGFIELD, IL\<close> does not match the pattern, and
  \<^verbatim>\<open>parseAddress\<close> of \<^verbatim>\<open>part_000\<close> returns all-empty components instead of
  the last two segments. With a comma between region and postal code the pattern does
  not match either, and the fallback of \<^verbatim>\<open>extractor.js\<close> takes the region for the
  city and the postal code for the region.
\<close>

theorem address_no_fallback:
  "re_search addressRegex False ''SPRINGFIELD, IL'' = None
   \<and> parseAddress_p0 ''SPRINGFIELD, IL'' = \<lparr>city_p0 = [], state_p0 = [], zip_p0 = []\<rparr>
   \<and> parseAddress ''DALLAS, TX, 75001'' = \<lparr>city = ''TX'', state = ''75001''\<rparr>"
  by code_simp

text \<open>
  Claim C7, amended. When the pattern matches, \<^verbatim>\<open>extractor.js\<close> returns the
  trimmed city and region and no postal code, and \<^verbatim>\<open>part_000\<close> returns the trimmed
  city, region and postal code. When it does not match, \<^verbatim>\<open>part_000\<close> returns
  all-empty components; \<^verbatim>\<open>extractor.js\<close> returns, for a string with a comma, the
  trimmed segment before the last comma as the city and the first word of the trimmed
  segment after it as the region, and all-empty components without a comma.
\<close>

theorem address_decomposition:
  "(s \<noteq> [] \<and> re_search addressRegex False s = Some st \<longrightarrow>
      parseAddress s = \<lparr>city = trim (grp (snd st) 1), state = trim (grp (snd st) 2)\<rparr>
      \<and> parseAddress_p0 s
          = \<lparr>city_p0 = trim (grp (snd st) 1), state_p0 = trim (grp (snd st) 2),
             zip_p0 = trim (grp (snd st) 3)\<rparr>)
   \<and> (re_search addressRegex False s = None \<longrightarrow>
        parseAddress_p0 s = \<lparr>city_p0 = [], state_p0 = [], zip_p0 = []\<rparr>)
   \<and> (re_search addressRegex False s = None \<and> CHR '','' \<in> set s \<longrightarrow>
        parseAddress s
          = \<lparr>city = trim (split_on CHR '','' s ! (length (split_on CHR '','' s) - 2)),
             state = first_word (trim (last (split_on CHR '','' s)))\<rparr>)
   \<and> (re_search addressRegex False s = None \<and> CHR '','' \<notin> set s \<longrightarrow>
        parseAddress s = \<lparr>city = [], state = []\<rparr>)"
proof (intro conjI impI)
  assume "s \<noteq> [] \<and> re_search addressRegex False s = Some st"
  then show "parseAddress s = \<lparr>city = trim (grp (snd st) 1), state = trim (grp (snd st) 2)\<rparr>"
    and "parseAddress_p0 s
          = \<lparr>city_p0 = trim (grp (snd st) 1), state_p0 = trim (grp (snd st) 2),
             zip_p0 = trim (grp (snd st) 3)\<rparr>"
    by (simp_all add: parseAddress_def parseAddress_p0_def)
next
  assume "re_search addressRegex False s = None"
  then show "parseAddress_p0 s = \<lparr>city_p0 = [], state_p0 = [], zip_p0 = []\<rparr>"
    by (simp add: parseAddress_p0_def)
next
  assume a: "re_search addressRegex False s = None \<and> CHR '','' \<in> set s"
  then have "s \<noteq> []" by auto
  moreover have "2 \<le> length (split_on CHR '','' s)" using a by (simp add: split_on_two)
  ultimately show "parseAddress s
          = \<lparr>city = trim (split_on CHR '','' s ! (length (split_on CHR '','' s) - 2)),
             state = first_word (trim (last (split_on CHR '','' s)))\<rparr>"
    using a by (simp add: parseAddress_def Let_def split_on_last)
next
  assume a: "re_search addressRegex False s = None \<and> CHR '','' \<notin> set s"
  then have "\<not> 2 \<le> length (split_on CHR '','' s)" by (simp add: split_on_two)
  then show "parseAddress s = \<lparr>city = [], state = []\<rparr>"
    using a by (simp add: parseAddress_def Let_def)
qed

lemma address_examples:
  "re_search addressRegex False ''123 MAIN ST, SPRINGFIELD, IL 62704''
     = Some ([], [(3, ''62704''), (2, ''IL''), (1, ''SPRINGFIELD'')])"
  "re_search addressRegex False ''SPRINGFIELD IL'' = None"
  "split_on CHR '','' ''SPRINGFIELD, IL'' = [''SPRINGFIELD'', '' IL'']"
  "trim ''SPRINGFIELD'' = ''SPRINGFIELD''" "trim ''IL'' = ''IL''" "trim '' IL'' = ''IL''"
  "trim ''62704'' = ''62704''" "first_word ''IL'' = ''IL''"
  by code_simp+

theorem address_decomposition_witness:
  "parseAddress ''123 MAIN ST, SPRINGFIELD, IL 62704'' = \<lparr>city = ''SPRINGFIELD'', state = ''IL''\<rparr>
   \<and> parseAddress_p0 ''123 MAIN ST, SPRINGFIELD, IL 62704''
       = \<lparr>city_p0 = ''SPRINGFIELD'', state_p0 = ''IL'', zip_p0 = ''62704''\<rparr>
   \<and> parseAddress ''SPRINGFIELD, IL'' = \<lparr>city = ''SPRINGFIELD'', state = ''IL''\<rparr>
   \<and> parseAddress_p0 ''SPRINGFIELD, IL'' = \<lparr>city_p0 = [], state_p0 = [], zip_p0 = []\<rparr>
   \<and> parseAddress ''SPRINGFIELD IL'' = \<lparr>city = [], state = []\<rparr>"
proof -
  have n: "re_search addressRegex False ''SPRINGFIELD, IL'' = None"
    by code_simp
  from address_decomposition [of "''123 MAIN ST, SPRINGFIELD, IL 62704''"
      "([], [(3, ''62704''), (2, ''IL''), (1, ''SPRINGFIELD'')])"] address_examples(1)
  have 1: "parseAddress ''123 MAIN ST, SPRINGFIELD, IL 62704'' = \<lparr>city = ''SPRINGFIELD'', state = ''IL''\<rparr>
      \<and> parseAddress_p0 ''123 MAIN ST, SPRINGFIELD, IL 62704''
          = \<lparr>city_p0 = ''SPRINGFIELD'', state_p0 = ''IL'', zip_p0 = ''62704''\<rparr>"
    by (simp add: grp_def address_examples)
  from address_decomposition [of "''SPRINGFIELD, IL''"] n
  have 2: "parseAddress ''SPRINGFIELD, IL'' = \<lparr>city = ''SPRINGFIELD'', state = ''IL''\<rparr>
      \<and> parseAddress_p0 ''SPRINGFIELD, IL'' = \<lparr>city_p0 = [], state_p0 = [], zip_p0 = []\<rparr>"
    by (simp add: address_examples)
  from address_decomposition [of "''SPRINGFIELD IL''"] address_examples(2)
  have 3: "parseAddress ''SPRINGFIELD IL'' = \<lparr>city = [], state = []\<rparr>"
    by simp
  from 1 2 3 show ?thesis by simp
qed

section \<open>Row sink: the CSV line\<close>

lemma csvRead_escaped:
  "csvRead InField cur acc (replace_char dq [dq, dq] v @ rest) = csvRead InField (cur @ v) acc rest"
  by (induction v arbitrary: cur) (simp_all add: replace_char_def)

lemma csvRead_cell:
  "csvRead FieldStart cur acc (csvCell v @ rest) = csvRead QuoteSeen v acc rest"
  by (simp add: csvCell_def csvRead_escaped)

lemma csvLine_Cons:
  "vs \<noteq> [] \<Longrightarrow> csvLine (v # vs) = csvCell v @ '','' @ csvLine vs"
  by (cases vs) (simp_all add: csvLine_def)

lemma csvRead_line:
  "vs \<noteq> [] \<Longrightarrow> csvRead FieldStart cur acc (csvLine vs) = Some (acc @ vs)"
proof (induction vs arbitrary: cur acc)
  case Nil
  then show ?case by simp
next
  case (Cons v vs)
  show ?case
  proof (cases "vs = []")
    case True
    have "csvRead FieldStart cur acc (csvCell v @ []) = csvRead QuoteSeen v acc []"
      by (rule csvRead_cell)
    then show ?thesis using True by (simp add: csvLine_def)
  next
    case False
    have "csvRead FieldStart cur acc (csvLine (v # vs))
            = csvRead QuoteSeen v acc ('','' @ csvLine vs)"
      using False by (simp add: csvLine_Cons csvRead_cell)
    also have "\<dots> = csvRead FieldStart [] (acc @ [v]) (csvLine vs)"
      by simp
    also have "\<dots> = Some ((acc @ [v]) @ vs)"
      using False by (rule Cons.IH)
    finally show ?thesis by simp
  qed
qed

lemma csvRow_line:
  "csvRow r =
     csvLine [MC_Number r, USDOT_Number r, Legal_Name r, City r, State r, Status r,
              Authority_Type r, Power_Units r, Drivers r, Cargo_Carried r, Phone r, Email r,
              Operation_Type r, Entity_Type r, Script_Output r]"
  by (simp add: csvRow_def csvLine_def headers_def rowField_def)

lemma csvRow_p0_line:
  "csvRow_p0 r =
     csvLine [mcNumber r, legalName r, dbaName r, entityType r, operationType r, phone r,
              email r, physicalAddress r, mailingAddress r, row_city r, row_state r,
              row_zip r, row_url r]"
  by (simp add: csvRow_p0_def csvLine_def headers_p0_def rowField_p0_def)

text \<open>
  Claim C9. For every row of either variant, reading the line that \<^verbatim>\<open>run\<close> writes
  for it gives back the fields of the row themselves, one for each name of the header
  and in the order of the header.
\<close>

theorem csv_round_trip:
  "csvParseLine (csvRow r)
     = Some [MC_Number r, USDOT_Number r, Legal_Name r, City r, State r, Status r,
             Authority_Type r, Power_Units r, Drivers r, Cargo_Carried r, Phone r, Email r,
             Operation_Type r, Entity_Type r, Script_Output r]
   \<and> csvParseLine (csvRow_p0 r0)
     = Some [mcNumber r0, legalName r0, dbaName r0, entityType r0, operationType r0, phone r0,
             email r0, physicalAddress r0, mailingAddress r0, row_city r0, row_state r0,
             row_zip r0, row_url r0]"
  unfolding csvParseLine_def csvRow_line csvRow_p0_line
  by (simp add: csvRead_line)

text \<open>A row with a double quote and a comma in its name, its name as the file holds it,
  and the row read back.\<close>

definition sampleRow :: carrier_row where
  "sampleRow =
     \<lparr>MC_Number = ''123456'', USDOT_Number = ''2233445'',
      Legal_Name = ''ACME '' @ [dq] @ ''FAST'' @ [dq] @ '' FREIGHT, INC'',
      City = ''SPRINGFIELD'', State = ''IL'', Status = ''Active'', Authority_Type = ''Property'',
      Power_Units = ''5'', Drivers = ''3'', Cargo_Carried = ''General Freight, Household Goods'',
      Phone = ''(217) 555-0100'', Email = [], Operation_Type = ''Auth. For Hire'',
      Entity_Type = ''CARRIER'', Script_Output = []\<rparr>"

theorem csv_round_trip_witness:
  "csvCell (Legal_Name sampleRow)
     = [dq] @ ''ACME '' @ [dq, dq] @ ''FAST'' @ [dq, dq] @ '' FREIGHT, INC'' @ [dq]
   \<and> csvParseLine (csvRow sampleRow)
     = Some [''123456'', ''2233445'', ''ACME '' @ [dq] @ ''FAST'' @ [dq] @ '' FREIGHT, INC'',
             ''SPRINGFIELD'', ''IL'', ''Active'', ''Property'', ''5'', ''3'',
             ''General Freight, Household Goods'', ''(217) 555-0100'', [], ''Auth. For Hire'',
             ''CARRIER'', []]"
proof -
  have "csvCell (Legal_Name sampleRow)
     = [dq] @ ''ACME '' @ [dq, dq] @ ''FAST'' @ [dq, dq] @ '' FREIGHT, INC'' @ [dq]"
    by (simp add: sampleRow_def csvCell_def replace_char_def)
  with csv_round_trip [of sampleRow] show ?thesis
    by (simp add: sampleRow_def)
qed


end
